theory Spec2Isabelle
  imports Main "HOL-Library.Sublist"
begin

section \<open>Python strings\<close>

text \<open>
  A Python \<open>str\<close> is modelled as a \<open>string\<close>; one \<open>char\<close> stands for one character of
  the source string, so \<open>length\<close> is Python's \<open>len\<close>.
\<close>

definition whitespace :: "char list" where
  "whitespace = [CHR '' '', CHR 0x09, CHR ''\<newline>'', CHR 0x0B, CHR 0x0C, CHR 0x0D,
                 CHR 0x1C, CHR 0x1D, CHR 0x1E, CHR 0x1F, CHR 0x85, CHR 0xA0]"

definition isspace :: "char \<Rightarrow> bool" where
  "isspace c = (c \<in> set whitespace)"

definition lstrip :: "string \<Rightarrow> string" where
  "lstrip s = dropWhile isspace s"

definition rstrip :: "string \<Rightarrow> string" where
  "rstrip s = rev (dropWhile isspace (rev s))"

definition strip :: "string \<Rightarrow> string" where
  "strip s = rstrip (lstrip s)"

definition endswith :: "string \<Rightarrow> string \<Rightarrow> bool" where
  "endswith s suf = suffix suf s"

fun join :: "string \<Rightarrow> string list \<Rightarrow> string" where
  "join sep [] = []"
| "join sep [x] = x"
| "join sep (x # y # ys) = x @ sep @ join sep (y # ys)"

definition digit_char :: "nat \<Rightarrow> char" where
  "digit_char d = ''0123456789'' ! (d mod 10)"

fun str_nat :: "nat \<Rightarrow> string" where
  "str_nat n = (if n < 10 then [digit_char n] else str_nat (n div 10) @ [digit_char (n mod 10)])"

declare str_nat.simps [simp del]

definition str_int :: "int \<Rightarrow> string" where
  "str_int i = (if i < 0 then CHR ''-'' # str_nat (nat (- i)) else str_nat (nat i))"

section \<open>Errors, logging and the retry decorator\<close>

datatype error =
    ProviderError
  | ValueError string
  | RetryError
  | UnicodeDecodeError
  | FileError

fun str_error :: "error \<Rightarrow> string" where
  "str_error ProviderError = ''provider unavailable''"
| "str_error (ValueError m) = m"
| "str_error RetryError = ''RetryError''"
| "str_error UnicodeDecodeError = ''UnicodeDecodeError''"
| "str_error FileError = ''file unreadable''"

datatype level = INFO | WARNING | ERROR

type_synonym metadata = "(string \<times> string) list"

record document =
  page_content :: string
  metadata :: metadata

text \<open>
  The mutable world the services act on: the module globals of
  \<open>vector_store_service.py\<close> (\<open>_vector_store\<close>, the \<open>lru_cache\<close> of \<open>get_embeddings\<close>),
  the Chroma collection, the log, the prompts sent to the generation provider, and a
  schedule \<open>faults\<close> that decides, call by call, which provider calls raise.
\<close>

record world =
  vector_store_global :: bool
  embeddings_cached :: bool
  collection :: "(nat \<times> document) list"
  next_id :: nat
  faults :: "bool list"
  log :: "(level \<times> string) list"
  llm_prompts :: "string list"

definition logger :: "level \<Rightarrow> string \<Rightarrow> world \<Rightarrow> world" where
  "logger lv msg w = w\<lparr>log := log w @ [(lv, msg)]\<rparr>"

definition provider_call :: "world \<Rightarrow> bool \<times> world" where
  "provider_call w = (case faults w of [] \<Rightarrow> (False, w) | b # bs \<Rightarrow> (b, w\<lparr>faults := bs\<rparr>))"

text \<open>
  \<open>@retry(stop=stop_after_attempt(n), wait=...)\<close> of tenacity: the function is run again
  after every exception, and after the \<open>n\<close>-th failed attempt \<open>RetryError\<close> is raised.
  Waiting times are not modelled.
\<close>

fun retry :: "nat \<Rightarrow> (world \<Rightarrow> (error + 'a) \<times> world) \<Rightarrow> world \<Rightarrow> (error + 'a) \<times> world" where
  "retry 0 f w = (Inl RetryError, w)"
| "retry (Suc n) f w =
     (case f w of
        (Inr v, w') \<Rightarrow> (Inr v, w')
      | (Inl e, w') \<Rightarrow> retry n f w')"

section \<open>Configuration and external providers\<close>

record settings =
  OPENAI_API_KEY :: "string option"
  EMBEDDING_MODEL :: string
  CHUNK_SIZE :: nat
  CHUNK_OVERLAP :: nat

definition default_settings :: "string option \<Rightarrow> settings" where
  "default_settings key =
     \<lparr>OPENAI_API_KEY = key, EMBEDDING_MODEL = ''all-MiniLM-L6-v2'',
      CHUNK_SIZE = 1000, CHUNK_OVERLAP = 200\<rparr>"

text \<open>
  What the services read from outside and do not change: the distance the embedding
  provider induces between a query and a chunk text, the text the generation provider
  returns for a prompt, the clock, the fixed instruction text of the prompt template
  (lines 19-51 of \<open>rag_service.py\<close>, which hold characters outside ASCII), the text
  splitter, and the readers of the stored files.
\<close>

record env =
  distance :: "string \<Rightarrow> string \<Rightarrow> nat"
  generate :: "string \<Rightarrow> string"
  current_date :: string
  utcnow :: string
  instructions :: string
  text_splitter :: "nat \<Rightarrow> nat \<Rightarrow> string \<Rightarrow> string list"
  pdf_reader :: "string \<Rightarrow> error + (error + string) list"
  docx_reader :: "string \<Rightarrow> error + string list"
  open_utf8 :: "string \<Rightarrow> error + string"
  open_latin1 :: "string \<Rightarrow> error + string"

definition truthy :: "string option \<Rightarrow> bool" where
  "truthy v = (case v of None \<Rightarrow> False | Some s \<Rightarrow> s \<noteq> [])"

section \<open>The vector index (\<open>vector_store_service.py\<close>)\<close>

definition get_embeddings :: "settings \<Rightarrow> world \<Rightarrow> (error + unit) \<times> world" where
  "get_embeddings st w =
     (if embeddings_cached w then (Inr (), w)
      else
        (let w0 = (if truthy (OPENAI_API_KEY st) then w
                   else logger INFO (''Using HuggingFace embeddings model: '' @ EMBEDDING_MODEL st) w)
         in (case provider_call w0 of
               (True, w1) \<Rightarrow>
                 (Inl ProviderError,
                  logger ERROR (''Error creating embeddings model: '' @ str_error ProviderError) w1)
             | (False, w1) \<Rightarrow> (Inr (), w1\<lparr>embeddings_cached := True\<rparr>))))"

definition get_vector_store_body :: "settings \<Rightarrow> world \<Rightarrow> (error + bool) \<times> world" where
  "get_vector_store_body st w =
     (if \<not> vector_store_global w then
        (case get_embeddings st w of
           (Inl e, w1) \<Rightarrow> (Inl e, logger ERROR (''Vector store init failed: '' @ str_error e) w1)
         | (Inr _, w1) \<Rightarrow>
             (case provider_call w1 of
                (True, w2) \<Rightarrow>
                  (Inl ProviderError,
                   logger ERROR (''Vector store init failed: '' @ str_error ProviderError) w2)
              | (False, w2) \<Rightarrow>
                  (Inr True,
                   logger INFO ''Chroma vector store initialized'' (w2\<lparr>vector_store_global := True\<rparr>))))
      else (Inr (vector_store_global w), w))"

definition get_vector_store :: "settings \<Rightarrow> world \<Rightarrow> (error + bool) \<times> world" where
  "get_vector_store st = retry 3 (get_vector_store_body st)"

text \<open>
  Modelled from the spec: the operations of the index itself (Chroma, a dependency whose
  code is not under the repository's sources): \<open>similarity_search\<close>, \<open>add_documents\<close>,
  \<open>_collection.get\<close>, \<open>_collection.delete\<close> and \<open>_collection.count\<close>. Section 4.2: the
  query "returns up to top_k nearest entries by similarity, filtered first by the equality
  predicate (e.g., owner_id match) then ranked"; add "persists (vector, text, metadata)",
  "index size increases by len(entries)" and "re-adding the same chunk creates a duplicate
  entry"; the index supports "equality filtering on arbitrary metadata keys and
  per-document bulk delete". Every operation is one provider call, which may raise and
  then leaves the collection as it was. Entries carry an identifier chosen by the index.
\<close>

definition matches :: "(string \<times> string) option \<Rightarrow> document \<Rightarrow> bool" where
  "matches flt d = (case flt of None \<Rightarrow> True | Some (k, v) \<Rightarrow> map_of (metadata d) k = Some v)"

definition similarity_search ::
  "env \<Rightarrow> string \<Rightarrow> int \<Rightarrow> (string \<times> string) option \<Rightarrow> world
     \<Rightarrow> (error + document list) \<times> world" where
  "similarity_search ev query k flt w =
     (case provider_call w of
        (True, w1) \<Rightarrow> (Inl ProviderError, w1)
      | (False, w1) \<Rightarrow>
          (Inr (take (nat k)
                 (sort_key (\<lambda>d. distance ev query (page_content d))
                    (filter (matches flt) (map snd (collection w1))))), w1))"

definition add_documents :: "document list \<Rightarrow> world \<Rightarrow> (error + unit) \<times> world" where
  "add_documents docs w =
     (case provider_call w of
        (True, w1) \<Rightarrow> (Inl ProviderError, w1)
      | (False, w1) \<Rightarrow>
          (Inr (), w1\<lparr>collection := collection w1 @ zip [next_id w1 ..< next_id w1 + length docs] docs,
                       next_id := next_id w1 + length docs\<rparr>))"

definition collection_count :: "world \<Rightarrow> (error + nat) \<times> world" where
  "collection_count w =
     (case provider_call w of
        (True, w1) \<Rightarrow> (Inl ProviderError, w1)
      | (False, w1) \<Rightarrow> (Inr (length (collection w1)), w1))"

definition collection_get :: "(string \<times> string) option \<Rightarrow> world \<Rightarrow> (error + nat list) \<times> world" where
  "collection_get flt w =
     (case provider_call w of
        (True, w1) \<Rightarrow> (Inl ProviderError, w1)
      | (False, w1) \<Rightarrow> (Inr (map fst (filter (\<lambda>e. matches flt (snd e)) (collection w1))), w1))"

definition collection_delete :: "nat list \<Rightarrow> world \<Rightarrow> (error + unit) \<times> world" where
  "collection_delete ids w =
     (case provider_call w of
        (True, w1) \<Rightarrow> (Inl ProviderError, w1)
      | (False, w1) \<Rightarrow>
          (Inr (), w1\<lparr>collection := filter (\<lambda>e. fst e \<notin> set ids) (collection w1)\<rparr>))"

record chunk =
  chunk_text :: string
  chunk_metadata :: metadata

definition add_documents_to_vectorstore_body ::
  "settings \<Rightarrow> chunk list \<Rightarrow> world \<Rightarrow> (error + unit) \<times> world" where
  "add_documents_to_vectorstore_body st chunks w =
     (if chunks = [] \<or> length chunks = 0 then
        (Inr (), logger WARNING ''No chunks provided to add to vector store'' w)
      else
        (case get_vector_store st w of
           (Inl e, w1) \<Rightarrow>
             (Inl e, logger ERROR (''Error adding documents to vector store: '' @ str_error e) w1)
         | (Inr vector_store, w1) \<Rightarrow>
             if \<not> vector_store then
               (Inl (ValueError ''Vector store not available''),
                logger ERROR (''Error adding documents to vector store: ''
                              @ str_error (ValueError ''Vector store not available'')) w1)
             else
               (let documents = map (\<lambda>c. \<lparr>page_content = chunk_text c, metadata = chunk_metadata c\<rparr>) chunks
                in (case add_documents documents w1 of
                      (Inl e, w2) \<Rightarrow>
                        (Inl e, logger ERROR (''Error adding documents to vector store: '' @ str_error e) w2)
                    | (Inr _, w2) \<Rightarrow>
                        (let w3 = logger INFO (''Added '' @ str_nat (length documents)
                                               @ '' chunks to vector store'') w2
                         in (case collection_count w3 of
                               (Inl e, w4) \<Rightarrow>
                                 (Inr (), logger WARNING
                                    (''Could not verify document count after adding: '' @ str_error e) w4)
                             | (Inr collection_size, w4) \<Rightarrow>
                                 (Inr (), logger INFO (''Vector store now contains ''
                                    @ str_nat collection_size @ '' documents'') w4)))))))"

definition add_documents_to_vectorstore ::
  "settings \<Rightarrow> chunk list \<Rightarrow> world \<Rightarrow> (error + unit) \<times> world" where
  "add_documents_to_vectorstore st chunks = retry 3 (add_documents_to_vectorstore_body st chunks)"

definition query_vectorstore_body ::
  "settings \<Rightarrow> env \<Rightarrow> string \<Rightarrow> int \<Rightarrow> string option \<Rightarrow> world
     \<Rightarrow> (error + document list) \<times> world" where
  "query_vectorstore_body st ev query top_k user_id w =
     (if query = [] \<or> strip query = [] then
        (Inr [], logger WARNING ''Empty query provided to vector store'' w)
      else
        (case get_vector_store st w of
           (Inl e, w1) \<Rightarrow>
             (Inr [], logger ERROR (''Error querying vector store: '' @ str_error e) w1)
         | (Inr vector_store, w1) \<Rightarrow>
             if \<not> vector_store then
               (Inr [], logger ERROR ''Failed to initialize vector store for query'' w1)
             else
               (let w2 = logger INFO (''Using Chroma vector store for query: '' @ query) w1 in
                (case (if truthy user_id
                       then similarity_search ev query top_k (Some (''user_id'', the user_id)) w2
                       else similarity_search ev query top_k None w2) of
                   (Inl e, w3) \<Rightarrow>
                     (Inr [], logger ERROR (''Error querying Chroma vector store: '' @ str_error e) w3)
                 | (Inr results, w3) \<Rightarrow>
                     (Inr results,
                      logger INFO (''Chroma query returned '' @ str_nat (length results)
                                   @ '' results'') w3)))))"

definition query_vectorstore ::
  "settings \<Rightarrow> env \<Rightarrow> string \<Rightarrow> int \<Rightarrow> string option \<Rightarrow> world
     \<Rightarrow> (error + document list) \<times> world" where
  "query_vectorstore st ev query top_k user_id =
     retry 3 (query_vectorstore_body st ev query top_k user_id)"

text \<open>
  \<open>delete_document_from_vectorstore\<close> has no \<open>return\<close> with a value: the caller receives
  Python's \<open>None\<close> on every normal path, written \<open>None\<close> in the type \<open>nat option\<close> (a
  count would be \<open>Some n\<close>). The number of deleted chunks goes to the log only.
\<close>

definition delete_document_from_vectorstore_body ::
  "settings \<Rightarrow> string \<Rightarrow> world \<Rightarrow> (error + nat option) \<times> world" where
  "delete_document_from_vectorstore_body st document_id w =
     (if document_id = [] then
        (Inr None, logger WARNING ''No document_id provided for deletion'' w)
      else
        (case get_vector_store st w of
           (Inl e, w1) \<Rightarrow>
             (Inl e, logger ERROR (''Error deleting document from vector store: '' @ str_error e) w1)
         | (Inr vector_store, w1) \<Rightarrow>
             if \<not> vector_store then
               (Inl (ValueError ''Vector store not available''),
                logger ERROR (''Error deleting document from vector store: ''
                              @ str_error (ValueError ''Vector store not available'')) w1)
             else
               (case collection_get (Some (''document_id'', document_id)) w1 of
                  (Inl e, w2) \<Rightarrow>
                    (Inl e,
                     logger ERROR (''Error deleting document from vector store: '' @ str_error e)
                       (logger ERROR (''Error deleting from Chroma: '' @ str_error e) w2))
                | (Inr ids, w2) \<Rightarrow>
                    if length ids > 0 then
                      (case collection_delete ids w2 of
                         (Inl e, w3) \<Rightarrow>
                           (Inl e,
                            logger ERROR (''Error deleting document from vector store: '' @ str_error e)
                              (logger ERROR (''Error deleting from Chroma: '' @ str_error e) w3))
                       | (Inr _, w3) \<Rightarrow>
                           (Inr None,
                            logger INFO (''Deleted '' @ str_nat (length ids) @ '' chunks for document ''
                                         @ document_id) w3))
                    else
                      (Inr None,
                       logger WARNING (''No chunks found for document '' @ document_id) w2))))"

definition delete_document_from_vectorstore ::
  "settings \<Rightarrow> string \<Rightarrow> world \<Rightarrow> (error + nat option) \<times> world" where
  "delete_document_from_vectorstore st document_id =
     retry 3 (delete_document_from_vectorstore_body st document_id)"

section \<open>The answering path (\<open>rag_service.py\<close>)\<close>

definition RAG_PROMPT_TEMPLATE :: "env \<Rightarrow> string \<Rightarrow> string \<Rightarrow> string \<Rightarrow> string" where
  "RAG_PROMPT_TEMPLATE ev context question date =
     instructions ev @ ''For your reference, today'' @ [CHR 0x27] @ ''s date is '' @ date
     @ ''.\<newline>\<newline>Context:\<newline>'' @ context
     @ ''\<newline>\<newline>Question: '' @ question
     @ ''\<newline>\<newline>Answer (be detailed and include relevant source citations in parentheses):''"

definition get_llm_body :: "settings \<Rightarrow> world \<Rightarrow> (error + unit) \<times> world" where
  "get_llm_body st w =
     (if \<not> truthy (OPENAI_API_KEY st)
      then (Inl (ValueError ''OpenAI API key is required for the RAG functionality''), w)
      else (Inr (), w))"

definition get_llm :: "settings \<Rightarrow> world \<Rightarrow> (error + unit) \<times> world" where
  "get_llm st = retry 2 (get_llm_body st)"

text \<open>
  One call of the generation provider (\<open>chain.invoke\<close>): the prompt is recorded in
  \<open>llm_prompts\<close>, and the call either raises or returns the provider's text.
\<close>

definition chain_invoke :: "env \<Rightarrow> string \<Rightarrow> world \<Rightarrow> (error + string) \<times> world" where
  "chain_invoke ev prompt w =
     (case provider_call (w\<lparr>llm_prompts := llm_prompts w @ [prompt]\<rparr>) of
        (True, w1) \<Rightarrow> (Inl ProviderError, w1)
      | (False, w1) \<Rightarrow> (Inr (generate ev prompt), w1))"

definition page_info :: "document \<Rightarrow> string" where
  "page_info doc =
     (if truthy (map_of (metadata doc) ''page'')
      then '' (Page '' @ the (map_of (metadata doc) ''page'') @ '')''
      else [])"

definition source_citation :: "document \<Rightarrow> string" where
  "source_citation doc =
     (case map_of (metadata doc) ''document'' of
        None \<Rightarrow> ''Unknown document''
      | Some d \<Rightarrow> d) @ page_info doc"

fun format_documents_loop :: "nat \<Rightarrow> document list \<Rightarrow> string list \<Rightarrow> string list" where
  "format_documents_loop i [] formatted_docs = formatted_docs"
| "format_documents_loop i (doc # docs) formatted_docs =
     format_documents_loop (i + 1) docs
       (formatted_docs @
          [''Document '' @ str_nat (i + 1) @ '' ['' @ source_citation doc @ '']:\<newline>''
           @ page_content doc @ ''\<newline>''])"

definition format_documents :: "document list \<Rightarrow> string" where
  "format_documents docs = join ''\<newline>'' (format_documents_loop 0 docs [])"

record source =
  source_document :: string
  source_page :: "string option"
  source_text :: string

definition source_of :: "document \<Rightarrow> source" where
  "source_of doc =
     \<lparr>source_document = (case map_of (metadata doc) ''document'' of
                            None \<Rightarrow> ''Unknown document'' | Some d \<Rightarrow> d),
      source_page = map_of (metadata doc) ''page'',
      source_text = page_content doc\<rparr>"

definition no_documents_message :: string where
  "no_documents_message = ''No relevant documents found to answer your question.''"

definition query_documents_body ::
  "settings \<Rightarrow> env \<Rightarrow> string \<Rightarrow> int \<Rightarrow> string option \<Rightarrow> world
     \<Rightarrow> (error + string \<times> source list) \<times> world" where
  "query_documents_body st ev query top_k user_id w =
     (case query_vectorstore st ev query top_k user_id w of
        (Inl e, w1) \<Rightarrow> (Inl e, logger ERROR (''Error in RAG query: '' @ str_error e) w1)
      | (Inr docs, w1) \<Rightarrow>
          if docs = [] then (Inr (no_documents_message, []), w1)
          else
            (let context = format_documents docs in
             (case get_llm st w1 of
                (Inl e, w2) \<Rightarrow> (Inl e, logger ERROR (''Error in RAG query: '' @ str_error e) w2)
              | (Inr _, w2) \<Rightarrow>
                  (case chain_invoke ev (RAG_PROMPT_TEMPLATE ev context query (current_date ev)) w2 of
                     (Inl e, w3) \<Rightarrow>
                       (Inl e, logger ERROR (''Error in RAG query: '' @ str_error e) w3)
                   | (Inr answer_text, w3) \<Rightarrow>
                       (Inr (answer_text, map source_of docs),
                        logger INFO (''Query successful: '' @ [CHR 0x27] @ query @ [CHR 0x27]
                                     @ '' - found '' @ str_nat (length docs)
                                     @ '' relevant documents'') w3)))))"

definition query_documents ::
  "settings \<Rightarrow> env \<Rightarrow> string \<Rightarrow> int \<Rightarrow> string option \<Rightarrow> world
     \<Rightarrow> (error + string \<times> source list) \<times> world" where
  "query_documents st ev query top_k user_id =
     retry 2 (query_documents_body st ev query top_k user_id)"

section \<open>Ingestion (\<open>document_service.py\<close>)\<close>

definition chunk_with_metadata ::
  "env \<Rightarrow> int option \<Rightarrow> string \<Rightarrow> string \<Rightarrow> string \<Rightarrow> string \<Rightarrow> chunk" where
  "chunk_with_metadata ev page_num document_id filename user_id chunk =
     (let source = (case page_num of
                      None \<Rightarrow> filename
                    | Some n \<Rightarrow> filename @ '' (page '' @ str_int n @ '')'')
      in \<lparr>chunk_text = chunk,
          chunk_metadata =
            [(''document_id'', document_id),
             (''document'', filename),
             (''page'', (case page_num of Some n \<Rightarrow> str_int n | None \<Rightarrow> ''0'')),
             (''text'', chunk),
             (''user_id'', user_id),
             (''source'', source),
             (''created_at'', utcnow ev)]\<rparr>)"

fun create_chunks_with_metadata ::
  "settings \<Rightarrow> env \<Rightarrow> (int option \<times> string) list \<Rightarrow> string \<Rightarrow> string \<Rightarrow> string \<Rightarrow> chunk list" where
  "create_chunks_with_metadata st ev [] document_id filename user_id = []"
| "create_chunks_with_metadata st ev ((page_num, txt) # text_by_page) document_id filename user_id =
     map (chunk_with_metadata ev page_num document_id filename user_id)
         (text_splitter ev (CHUNK_SIZE st) (CHUNK_OVERLAP st) txt)
     @ create_chunks_with_metadata st ev text_by_page document_id filename user_id"

fun pdf_pages_loop :: "nat \<Rightarrow> (error + string) list \<Rightarrow> error + (int option \<times> string) list" where
  "pdf_pages_loop i [] = Inr []"
| "pdf_pages_loop i (page # pages) =
     (case page of
        Inl e \<Rightarrow> Inl e
      | Inr page_text \<Rightarrow>
          (case pdf_pages_loop (i + 1) pages of
             Inl e \<Rightarrow> Inl e
           | Inr text_by_page \<Rightarrow>
               Inr (if strip page_text \<noteq> [] then (Some (int i + 1), page_text) # text_by_page
                    else text_by_page)))"

definition process_pdf ::
  "settings \<Rightarrow> env \<Rightarrow> string \<Rightarrow> string \<Rightarrow> string \<Rightarrow> string \<Rightarrow> world \<Rightarrow> chunk list \<times> world" where
  "process_pdf st ev file_path document_id filename user_id w =
     (case pdf_reader ev file_path of
        Inl e \<Rightarrow> ([], logger ERROR (''Error processing PDF '' @ file_path @ '': '' @ str_error e) w)
      | Inr pages \<Rightarrow>
          (case pdf_pages_loop 0 pages of
             Inl e \<Rightarrow> ([], logger ERROR (''Error processing PDF '' @ file_path @ '': '' @ str_error e) w)
           | Inr text_by_page \<Rightarrow>
               (create_chunks_with_metadata st ev text_by_page document_id filename user_id, w)))"

definition process_docx ::
  "settings \<Rightarrow> env \<Rightarrow> string \<Rightarrow> string \<Rightarrow> string \<Rightarrow> string \<Rightarrow> world \<Rightarrow> chunk list \<times> world" where
  "process_docx st ev file_path document_id filename user_id w =
     (case docx_reader ev file_path of
        Inl e \<Rightarrow> ([], logger ERROR (''Error processing DOCX '' @ file_path @ '': '' @ str_error e) w)
      | Inr paragraphs \<Rightarrow>
          (let full_text = filter (\<lambda>p. strip p \<noteq> []) paragraphs;
               combined_text = join ''\<newline>'' full_text
           in (create_chunks_with_metadata st ev [(None, combined_text)] document_id filename user_id, w)))"

definition process_txt_text ::
  "settings \<Rightarrow> env \<Rightarrow> string \<Rightarrow> string \<Rightarrow> string \<Rightarrow> string \<Rightarrow> world \<Rightarrow> chunk list \<times> world" where
  "process_txt_text st ev txt document_id filename user_id w =
     (if strip txt = [] then
        ([], logger WARNING (''No content found in text file: '' @ filename) w)
      else (create_chunks_with_metadata st ev [(None, txt)] document_id filename user_id, w))"

definition process_txt ::
  "settings \<Rightarrow> env \<Rightarrow> string \<Rightarrow> string \<Rightarrow> string \<Rightarrow> string \<Rightarrow> world \<Rightarrow> chunk list \<times> world" where
  "process_txt st ev file_path document_id filename user_id w =
     (case open_utf8 ev file_path of
        Inr txt \<Rightarrow> process_txt_text st ev txt document_id filename user_id w
      | Inl UnicodeDecodeError \<Rightarrow>
          (case open_latin1 ev file_path of
             Inr txt \<Rightarrow>
               process_txt_text st ev txt document_id filename user_id
                 (logger WARNING (''Used Latin-1 encoding for '' @ filename @ '' as UTF-8 failed'') w)
           | Inl e \<Rightarrow>
               ([], logger ERROR (''Error processing TXT '' @ file_path @ '': '' @ str_error e) w))
      | Inl e \<Rightarrow> ([], logger ERROR (''Error processing TXT '' @ file_path @ '': '' @ str_error e) w))"

definition add_chunks ::
  "settings \<Rightarrow> string \<Rightarrow> chunk list \<Rightarrow> world \<Rightarrow> (error + unit) \<times> world" where
  "add_chunks st document_id text_chunks w =
     (if text_chunks \<noteq> [] \<and> length text_chunks > 0 then
        (case add_documents_to_vectorstore st text_chunks
                (logger INFO (''Adding '' @ str_nat (length text_chunks)
                              @ '' chunks to vector store for document '' @ document_id) w) of
           (Inl e, w1) \<Rightarrow>
             (Inr (), logger ERROR (''Error adding document to vector store: '' @ str_error e) w1)
         | (Inr _, w1) \<Rightarrow>
             (Inr (), logger INFO (''Document '' @ document_id @ '' processed successfully'') w1))
      else
        (Inr (), logger WARNING (''No text chunks extracted from document '' @ document_id) w))"

definition process_document_body ::
  "settings \<Rightarrow> env \<Rightarrow> string \<Rightarrow> string \<Rightarrow> string \<Rightarrow> string \<Rightarrow> world \<Rightarrow> (error + unit) \<times> world" where
  "process_document_body st ev file_path document_id filename user_id w =
     (if endswith file_path ''.pdf'' then
        (case process_pdf st ev file_path document_id filename user_id w of
           (text_chunks, w1) \<Rightarrow> add_chunks st document_id text_chunks w1)
      else if endswith file_path ''.docx'' then
        (case process_docx st ev file_path document_id filename user_id w of
           (text_chunks, w1) \<Rightarrow> add_chunks st document_id text_chunks w1)
      else if endswith file_path ''.txt'' then
        (case process_txt st ev file_path document_id filename user_id w of
           (text_chunks, w1) \<Rightarrow> add_chunks st document_id text_chunks w1)
      else (Inr (), logger ERROR (''Unsupported file type: '' @ file_path) w))"

definition process_document ::
  "settings \<Rightarrow> env \<Rightarrow> string \<Rightarrow> string \<Rightarrow> string \<Rightarrow> string \<Rightarrow> world \<Rightarrow> (error + unit) \<times> world" where
  "process_document st ev file_path document_id filename user_id w =
     (case process_document_body st ev file_path document_id filename user_id
             (logger INFO (''Processing document: '' @ filename @ '' (ID: '' @ document_id
                           @ '') for user: '' @ user_id) w) of
        (Inl e, w1) \<Rightarrow>
          (Inr (), logger ERROR (''Error processing document '' @ document_id @ '': ''
                                 @ str_error e) w1)
      | (Inr u, w1) \<Rightarrow> (Inr u, w1))"

section \<open>The text splitter\<close>

text \<open>
  Modelled from the spec: \<open>RecursiveCharacterTextSplitter.split_text\<close> (langchain, a
  dependency whose code is not under the repository's sources), configured by
  \<open>create_chunks_with_metadata\<close> with \<open>chunk_size\<close>, \<open>chunk_overlap\<close> and \<open>len\<close>.
  Section 4.1: "recursively split on decreasing granularity of separators (paragraph,
  sentence, word, character) to produce chunks whose length \<le> chunk_size, preferring
  splits at larger boundaries; each successive chunk after the first overlaps the
  previous by chunk_overlap characters (or the nearest boundary \<le> that many).
  Empty/whitespace-only input yields zero chunks"; section 3: chunk text is "non-empty
  and whitespace-trimmed"; section 9: the fallback order is paragraph, sentence, word,
  character. The separators are the blank line, the newline, the space and the empty
  separator (single characters). A text is cut in front of every occurrence of the first
  separator that occurs in it, so each piece after the first starts with the separator;
  pieces shorter than the chunk size are merged greedily, a new chunk starting with the
  trailing pieces of the previous one that fit in the overlap; a piece that is too long
  is split again with the remaining separators.
\<close>

definition separators :: "string list" where
  "separators = [''\<newline>\<newline>'', ''\<newline>'', '' '', []]"

fun contains :: "string \<Rightarrow> string \<Rightarrow> bool" where
  "contains sep [] = (sep = [])"
| "contains sep (c # cs) = (prefix sep (c # cs) \<or> contains sep cs)"

fun split_at_separator :: "string \<Rightarrow> nat \<Rightarrow> string \<Rightarrow> string \<Rightarrow> string list" where
  "split_at_separator sep skip cur [] = [cur]"
| "split_at_separator sep skip cur (c # cs) =
     (if skip = 0 \<and> prefix sep (c # cs)
      then cur # split_at_separator sep (length sep - 1) [c] cs
      else split_at_separator sep (skip - 1) (cur @ [c]) cs)"

definition split_with_separator :: "string \<Rightarrow> string \<Rightarrow> string list" where
  "split_with_separator sep txt =
     (if sep = [] then map (\<lambda>c. [c]) txt
      else filter (\<lambda>s. s \<noteq> []) (split_at_separator sep 0 [] txt))"

definition total :: "string list \<Rightarrow> nat" where
  "total current_doc = sum_list (map length current_doc)"

definition join_docs :: "string list \<Rightarrow> string list" where
  "join_docs current_doc =
     (let doc = strip (concat current_doc) in if doc = [] then [] else [doc])"

fun pop_overlap :: "nat \<Rightarrow> nat \<Rightarrow> nat \<Rightarrow> string list \<Rightarrow> string list" where
  "pop_overlap chunk_size chunk_overlap len [] = []"
| "pop_overlap chunk_size chunk_overlap len (d # current_doc) =
     (if total (d # current_doc) > chunk_overlap
         \<or> (total (d # current_doc) + len > chunk_size \<and> total (d # current_doc) > 0)
      then pop_overlap chunk_size chunk_overlap len current_doc
      else d # current_doc)"

fun merge_splits :: "nat \<Rightarrow> nat \<Rightarrow> string list \<Rightarrow> string list \<Rightarrow> string list" where
  "merge_splits chunk_size chunk_overlap [] current_doc = join_docs current_doc"
| "merge_splits chunk_size chunk_overlap (d # splits) current_doc =
     (if total current_doc + length d > chunk_size \<and> current_doc \<noteq> [] then
        join_docs current_doc
        @ merge_splits chunk_size chunk_overlap splits
            (pop_overlap chunk_size chunk_overlap (length d) current_doc @ [d])
      else merge_splits chunk_size chunk_overlap splits (current_doc @ [d]))"

definition merge_good :: "nat \<Rightarrow> nat \<Rightarrow> string list \<Rightarrow> string list" where
  "merge_good chunk_size chunk_overlap good_splits =
     (if good_splits \<noteq> [] then merge_splits chunk_size chunk_overlap good_splits [] else [])"

fun split_pieces ::
  "nat \<Rightarrow> nat \<Rightarrow> (string \<Rightarrow> string list) \<Rightarrow> string list \<Rightarrow> string list \<Rightarrow> string list" where
  "split_pieces chunk_size chunk_overlap again [] good_splits =
     merge_good chunk_size chunk_overlap good_splits"
| "split_pieces chunk_size chunk_overlap again (s # splits) good_splits =
     (if length s < chunk_size
      then split_pieces chunk_size chunk_overlap again splits (good_splits @ [s])
      else merge_good chunk_size chunk_overlap good_splits @ again s
           @ split_pieces chunk_size chunk_overlap again splits [])"

primrec split_text_with :: "nat \<Rightarrow> nat \<Rightarrow> string list \<Rightarrow> string \<Rightarrow> string list" where
  "split_text_with chunk_size chunk_overlap [] = (\<lambda>txt. [txt])"
| "split_text_with chunk_size chunk_overlap (sep # new_separators) = (\<lambda>txt.
     if sep = [] then
       split_pieces chunk_size chunk_overlap (\<lambda>s. [s]) (split_with_separator sep txt) []
     else if contains sep txt then
       split_pieces chunk_size chunk_overlap
         (split_text_with chunk_size chunk_overlap new_separators) (split_with_separator sep txt) []
     else if new_separators = [] then
       split_pieces chunk_size chunk_overlap (\<lambda>s. [s]) (split_with_separator sep txt) []
     else split_text_with chunk_size chunk_overlap new_separators txt)"

definition split_text :: "nat \<Rightarrow> nat \<Rightarrow> string \<Rightarrow> string list" where
  "split_text chunk_size chunk_overlap txt = split_text_with chunk_size chunk_overlap separators txt"

section \<open>Notions used in the statements\<close>

text \<open>
  The underlying vector-store query fails when the store cannot be obtained (its own
  three attempts are exhausted) or when the provider call of the search raises.
\<close>

definition underlying_query_fails :: "settings \<Rightarrow> world \<Rightarrow> bool" where
  "underlying_query_fails st w =
     (case get_vector_store st w of
        (Inl e, w1) \<Rightarrow> True
      | (Inr vector_store, w1) \<Rightarrow> fst (provider_call w1))"

text \<open>
  The context as section 4.3 of the specification words it: one block per retrieved
  chunk, numbered from 1, each "prefixed with a 1-based index and a bracketed citation
  string" that is the document name, followed by \<open>(Page N)\<close> if a page is present; the
  blocks are joined by newlines. In the data model of section 3 the page field holds the
  unit label, "or sentinel when absent": a page is present when the field holds a label,
  that is a value other than the sentinel \<open>0\<close> (and other than the empty string). A chunk
  without a document name is cited as \<open>Unknown document\<close>.
\<close>

definition citation :: "document \<Rightarrow> string" where
  "citation doc =
     (let name = (case map_of (metadata doc) ''document'' of
                    None \<Rightarrow> ''Unknown document'' | Some d \<Rightarrow> d)
      in (case map_of (metadata doc) ''page'' of
            None \<Rightarrow> name
          | Some N \<Rightarrow> if N = [] \<or> N = ''0'' then name else name @ '' (Page '' @ N @ '')''))"

definition context_block :: "nat \<Rightarrow> document \<Rightarrow> string" where
  "context_block i doc =
     ''Document '' @ str_nat i @ '' ['' @ citation doc @ '']:\<newline>'' @ page_content doc
     @ ''\<newline>''"

definition assembled_context :: "document list \<Rightarrow> string" where
  "assembled_context docs =
     join ''\<newline>'' (map (\<lambda>(i, doc). context_block i doc) (zip [1 ..< length docs + 1] docs))"

text \<open>The entries the index holds for a list of chunks, numbered from \<open>n\<close>.\<close>

definition entries_of :: "nat \<Rightarrow> chunk list \<Rightarrow> (nat \<times> document) list" where
  "entries_of n chunks =
     zip [n ..< n + length chunks]
         (map (\<lambda>c. \<lparr>page_content = chunk_text c, metadata = chunk_metadata c\<rparr>) chunks)"

definition document_id_is :: "string \<Rightarrow> nat \<times> document \<Rightarrow> bool" where
  "document_id_is document_id e = (map_of (metadata (snd e)) ''document_id'' = Some document_id)"

text \<open>
  Two worlds hold the same store when the collection, the next identifier and the
  prompts sent to the generation provider agree.
\<close>

definition same_store :: "world \<Rightarrow> world \<Rightarrow> bool" where
  "same_store w w' =
     (collection w' = collection w \<and> next_id w' = next_id w \<and> llm_prompts w' = llm_prompts w)"

text \<open>
  The world with its log emptied: two worlds that agree on it differ in the log only. A
  function only writes to the log when its result and the rest of the world it leaves do
  not depend on the log it finds, and the log it leaves extends the log it finds.
\<close>

definition forget_log :: "world \<Rightarrow> world" where
  "forget_log w = w\<lparr>log := []\<rparr>"

definition log_write_only :: "(world \<Rightarrow> 'a \<times> world) \<Rightarrow> bool" where
  "log_write_only f =
     ((\<forall>w1 w2. forget_log w1 = forget_log w2 \<longrightarrow>
         fst (f w1) = fst (f w2) \<and> forget_log (snd (f w1)) = forget_log (snd (f w2)))
      \<and> (\<forall>w. prefix (log w) (log (snd (f w)))))"

text \<open>
  A failure is logged in \<open>w'\<close> with respect to \<open>w\<close> when the index is as before, the log
  is the log before followed by new entries, and one of the new entries is the error
  message.
\<close>

definition failure_logged :: "string \<Rightarrow> world \<Rightarrow> world \<Rightarrow> bool" where
  "failure_logged msg w w' =
     (collection w' = collection w \<and> take (length (log w)) (log w') = log w
      \<and> (ERROR, msg) \<in> set (drop (length (log w)) (log w')))"

text \<open>
  The chunks extracted from a file: those of the extractor that \<open>process_document\<close>
  selects by the extension of the file, and none for an extension it does not support.
  The extractors read the files and never the world, which is only passed on for the log.
\<close>

definition extracted_chunks ::
  "settings \<Rightarrow> env \<Rightarrow> string \<Rightarrow> string \<Rightarrow> string \<Rightarrow> string \<Rightarrow> world \<Rightarrow> chunk list" where
  "extracted_chunks st ev file_path document_id filename user_id w =
     (if endswith file_path ''.pdf'' then
        fst (process_pdf st ev file_path document_id filename user_id w)
      else if endswith file_path ''.docx'' then
        fst (process_docx st ev file_path document_id filename user_id w)
      else if endswith file_path ''.txt'' then
        fst (process_txt st ev file_path document_id filename user_id w)
      else [])"

text \<open>
  The windows of a split: the stretches of the text that the chunks are cut from, each
  with the number of characters it shares with the window before it. A chunk is a window
  with the whitespace at its two ends removed, and a window of whitespace only gives no
  chunk (\<open>chunks_of\<close>). Putting the windows one after the other, each without the
  characters it shares with the window before it, gives back the text (\<open>unsplit\<close>). The
  windows are chained when every window begins with at most \<open>chunk_overlap\<close> shared
  characters and these are the last characters of the window before it. The functions
  \<open>merge_windows\<close>, \<open>merge_good_windows\<close>, \<open>split_windows\<close> and \<open>text_windows\<close> compute
  the windows along the recursion of \<open>merge_splits\<close>, \<open>merge_good\<close>, \<open>split_pieces\<close> and
  \<open>split_text_with\<close>.
\<close>

definition chunks_of :: "(nat \<times> string) list \<Rightarrow> string list" where
  "chunks_of windows = concat (map (\<lambda>(n, w). join_docs [w]) windows)"

definition unsplit :: "(nat \<times> string) list \<Rightarrow> string" where
  "unsplit windows = concat (map (\<lambda>(n, w). drop n w) windows)"

fun chained :: "nat \<Rightarrow> string \<Rightarrow> (nat \<times> string) list \<Rightarrow> bool" where
  "chained chunk_overlap prev [] = True"
| "chained chunk_overlap prev ((n, w) # windows) =
     (n \<le> chunk_overlap \<and> n \<le> length w \<and> suffix (take n w) prev
      \<and> chained chunk_overlap w windows)"





definition starts_fresh :: "(nat \<times> string) list \<Rightarrow> bool" where
  "starts_fresh windows = (case windows of [] \<Rightarrow> True | (n, w) # _ \<Rightarrow> n = 0)"

definition sound_windows :: "nat \<Rightarrow> string \<Rightarrow> string list \<Rightarrow> (nat \<times> string) list \<Rightarrow> bool" where
  "sound_windows chunk_overlap t chunks windows =
     (chunks = chunks_of windows \<and> unsplit windows = t
      \<and> starts_fresh windows \<and> chained chunk_overlap [] windows)"

section \<open>Concrete inputs\<close>

definition example_settings :: settings where
  "example_settings = default_settings (Some ''sk-test'')"

definition example_env :: env where
  "example_env =
     \<lparr>distance = (\<lambda>q t. if q = t then 0 else 1),
      generate = (\<lambda>p. ''answer''),
      current_date = ''2025-01-01'',
      utcnow = ''2025-01-01T00:00:00'',
      instructions = ''Rules. '',
      text_splitter = split_text,
      pdf_reader = (\<lambda>p. if p = ''a.pdf'' then Inr [Inr ''Alpha.'', Inr '' '', Inr ''Gamma.'']
                          else Inl FileError),
      docx_reader = (\<lambda>p. if p = ''b.docx'' then Inr [''First paragraph.'', '' '', ''Second.'']
                           else Inl FileError),
      open_utf8 = (\<lambda>p. if p = ''c.txt'' then Inr ''Plain text.'' else Inl FileError),
      open_latin1 = (\<lambda>p. Inl FileError)\<rparr>"

definition example_world :: world where
  "example_world =
     \<lparr>vector_store_global = True, embeddings_cached = True,
      collection =
        [(0, \<lparr>page_content = ''invoice A'',
              metadata = [(''document_id'', ''d1''), (''document'', ''a.pdf''), (''page'', ''2''),
                          (''user_id'', ''alice'')]\<rparr>),
         (1, \<lparr>page_content = ''invoice B'',
              metadata = [(''document_id'', ''d2''), (''document'', ''notes.txt''), (''page'', ''0''),
                          (''user_id'', ''bob'')]\<rparr>)],
      next_id = 2, faults = [], log = [], llm_prompts = []\<rparr>"

section \<open>Proofs\<close>

subsection \<open>What the basic operations leave unchanged\<close>

lemma logger_fields [simp]:
  "collection (logger lv m w) = collection w"
  "next_id (logger lv m w) = next_id w"
  "faults (logger lv m w) = faults w"
  "llm_prompts (logger lv m w) = llm_prompts w"
  "vector_store_global (logger lv m w) = vector_store_global w"
  "embeddings_cached (logger lv m w) = embeddings_cached w"
  by (simp_all add: logger_def)

lemma provider_call_fields [simp]:
  "collection (snd (provider_call w)) = collection w"
  "next_id (snd (provider_call w)) = next_id w"
  "llm_prompts (snd (provider_call w)) = llm_prompts w"
  "vector_store_global (snd (provider_call w)) = vector_store_global w"
  "embeddings_cached (snd (provider_call w)) = embeddings_cached w"
  by (simp_all add: provider_call_def split: list.splits)

lemma provider_call_logger [simp]:
  "fst (provider_call (logger lv m w)) = fst (provider_call w)"
  by (simp add: provider_call_def logger_def split: list.splits)

lemma provider_call_no_fault:
  "faults w = [] \<Longrightarrow> provider_call w = (False, w)"
  by (simp add: provider_call_def)

lemma same_store_refl [simp]: "same_store w w"
  by (simp add: same_store_def)

lemma same_store_trans: "same_store w w1 \<Longrightarrow> same_store w1 w2 \<Longrightarrow> same_store w w2"
  by (simp add: same_store_def)

lemma same_store_logger [simp]:
  "same_store w (logger lv m w') = same_store w w'"
  "same_store (logger lv m w) w' = same_store w w'"
  by (simp_all add: same_store_def)

lemma same_store_provider_call: "provider_call w = (b, w') \<Longrightarrow> same_store w w'"
  using provider_call_fields[of w] by (simp add: same_store_def)

subsection \<open>The retry decorator\<close>

lemma retry_Suc_Inr: "fst (f w) = Inr v \<Longrightarrow> retry (Suc n) f w = f w"
  by (cases "f w") auto

lemma retry_rule:
  assumes step: "\<And>w r w'. I w \<Longrightarrow> f w = (r, w') \<Longrightarrow> (case r of Inl e \<Rightarrow> I w' | Inr v \<Rightarrow> Q v w')"
    and init: "I w"
  shows "case retry n f w of (Inl e, w') \<Rightarrow> e = RetryError \<and> I w' | (Inr v, w') \<Rightarrow> Q v w'"
  using init
proof (induction n arbitrary: w)
  case 0
  then show ?case by simp
next
  case (Suc n)
  obtain r w1 where f: "f w = (r, w1)" by (cases "f w")
  show ?case
  proof (cases r)
    case (Inl e)
    with step[OF Suc.prems f] have "I w1" by simp
    from Suc.IH[OF this] show ?thesis using f Inl by simp
  next
    case (Inr v)
    with step[OF Suc.prems f] show ?thesis using f by simp
  qed
qed

subsection \<open>Obtaining the store\<close>

lemma get_embeddings_same_store: "get_embeddings st w = (r, w') \<Longrightarrow> same_store w w'"
  by (auto simp: get_embeddings_def Let_def same_store_def split: if_splits prod.splits bool.splits
           dest!: same_store_provider_call)

lemma get_vector_store_body_same_store:
  "get_vector_store_body st w = (r, w') \<Longrightarrow> same_store w w' \<and> (r = Inr True \<or> (\<exists>e. r = Inl e))"
  by (auto simp: get_vector_store_body_def same_store_def
           split: if_splits prod.splits bool.splits sum.splits
           dest!: same_store_provider_call get_embeddings_same_store)

lemma get_vector_store_same_store:
  assumes "get_vector_store st w = (r, w')"
  shows "same_store w w' \<and> (r = Inr True \<or> r = Inl RetryError)"
proof -
  have "case retry 3 (get_vector_store_body st) w of
          (Inl e, w') \<Rightarrow> e = RetryError \<and> same_store w w'
        | (Inr v, w') \<Rightarrow> v = True \<and> same_store w w'"
  proof (rule retry_rule)
    show "same_store w w" by simp
  next
    fix w0 r0 w1
    assume "same_store w w0" and "get_vector_store_body st w0 = (r0, w1)"
    then show "case r0 of Inl e \<Rightarrow> same_store w w1 | Inr v \<Rightarrow> v = True \<and> same_store w w1"
      using get_vector_store_body_same_store[of st w0 r0 w1]
      by (auto split: sum.splits intro: same_store_trans)
  qed
  with assms show ?thesis
    by (auto simp: get_vector_store_def split: sum.splits)
qed

subsection \<open>Querying\<close>

lemma query_vectorstore_body_returns:
  "\<exists>docs. fst (query_vectorstore_body st ev q k u w) = Inr docs"
  by (simp add: query_vectorstore_body_def Let_def split: prod.splits sum.splits)

lemma query_vectorstore_is_body:
  "query_vectorstore st ev q k u w = query_vectorstore_body st ev q k u w"
proof -
  obtain docs where "fst (query_vectorstore_body st ev q k u w) = Inr docs"
    using query_vectorstore_body_returns by blast
  then show ?thesis
    unfolding query_vectorstore_def numeral_3_eq_3 by (rule retry_Suc_Inr)
qed

lemma similarity_search_eq:
  "similarity_search ev q k flt w =
     (if fst (provider_call w) then (Inl ProviderError, snd (provider_call w))
      else (Inr (take (nat k) (sort_key (\<lambda>d. distance ev q (page_content d))
                    (filter (matches flt) (map snd (collection w))))), snd (provider_call w)))"
proof (cases "provider_call w")
  case (Pair b w1)
  then have "collection w1 = collection w"
    using provider_call_fields(1)[of w] by simp
  with Pair show ?thesis by (simp add: similarity_search_def)
qed

lemma similarity_search_same_store: "similarity_search ev q k flt w = (r, w') \<Longrightarrow> same_store w w'"
  by (auto simp: similarity_search_eq same_store_def split: if_splits)

lemma similarity_search_sound:
  assumes "similarity_search ev q k flt w = (Inr docs, w')" and "d \<in> set docs"
  shows "matches flt d"
proof -
  from assms have "d \<in> set (sort_key (\<lambda>d. distance ev q (page_content d))
                    (filter (matches flt) (map snd (collection w))))"
    by (auto simp: similarity_search_eq split: if_splits dest: in_set_takeD)
  then show ?thesis by simp
qed

lemma query_vectorstore_body_filtered:
  assumes "query_vectorstore_body st ev q k u w = (Inr docs, w')" and "d \<in> set docs" and "truthy u"
  shows "matches (Some (''user_id'', the u)) d"
  using assms
  by (auto simp: query_vectorstore_body_def Let_def split: prod.splits sum.splits if_splits
           dest: similarity_search_sound)

lemma query_vectorstore_body_same_store:
  "query_vectorstore_body st ev q k u w = (r, w') \<Longrightarrow> same_store w w'"
  by (auto simp: query_vectorstore_body_def Let_def split: prod.splits sum.splits if_splits
           dest!: similarity_search_same_store get_vector_store_same_store
           intro: same_store_trans)

lemma query_vectorstore_body_fails:
  assumes "underlying_query_fails st w"
  shows "fst (query_vectorstore_body st ev q k u w) = Inr []"
proof (cases "get_vector_store st w")
  case (Pair r w1)
  show ?thesis
  proof (cases r)
    case (Inl e)
    with Pair show ?thesis by (simp add: query_vectorstore_body_def)
  next
    case (Inr b)
    with Pair assms have p: "fst (provider_call w1)" by (simp add: underlying_query_fails_def)
    then show ?thesis using Pair Inr
      by (simp add: query_vectorstore_body_def Let_def similarity_search_eq)
  qed
qed

lemma query_vectorstore_body_unfiltered:
  assumes "\<not> truthy u" and "q \<noteq> []" and "strip q \<noteq> []" and "\<not> underlying_query_fails st w"
  shows "fst (query_vectorstore_body st ev q k u w) =
           Inr (take (nat k) (sort_key (\<lambda>d. distance ev q (page_content d)) (map snd (collection w))))"
proof (cases "get_vector_store st w")
  case (Pair r w1)
  with assms(4) obtain b where r: "r = Inr b" and p: "\<not> fst (provider_call w1)"
    by (cases r) (auto simp: underlying_query_fails_def)
  from get_vector_store_same_store[OF Pair] r have b: "b" and s: "collection w1 = collection w"
    by (auto simp: same_store_def)
  have m: "filter (matches None) xs = xs" for xs
    by (simp add: matches_def)
  show ?thesis using Pair r b p s assms(1-3)
    by (simp add: query_vectorstore_body_def Let_def similarity_search_eq m)
qed


subsection \<open>Owner filtering and failures of the query\<close>

text \<open>
  Claim C1. A query that supplies a non-empty owner identifier returns normally, every
  returned entry has \<open>metadata.user_id\<close> equal to that identifier, and no returned entry
  carries the identifier of another owner.
\<close>

theorem query_vectorstore_owner_isolation:
  assumes "uid \<noteq> []"
  shows "\<exists>docs w'. query_vectorstore st ev q k (Some uid) w = (Inr docs, w')
           \<and> (\<forall>d \<in> set docs. map_of (metadata d) ''user_id'' = Some uid)
           \<and> (\<forall>d \<in> set docs. \<forall>b. b \<noteq> uid \<longrightarrow> map_of (metadata d) ''user_id'' \<noteq> Some b)"
proof -
  obtain docs where d: "fst (query_vectorstore_body st ev q k (Some uid) w) = Inr docs"
    using query_vectorstore_body_returns by blast
  then obtain w' where b: "query_vectorstore_body st ev q k (Some uid) w = (Inr docs, w')"
    by (cases "query_vectorstore_body st ev q k (Some uid) w") auto
  have t: "truthy (Some uid)" using assms by (simp add: truthy_def)
  have "\<forall>d \<in> set docs. map_of (metadata d) ''user_id'' = Some uid"
    using query_vectorstore_body_filtered[OF b _ t] by (auto simp: matches_def)
  with b show ?thesis by (auto simp: query_vectorstore_is_body)
qed

lemma example_query_alice:
  "fst (query_vectorstore example_settings example_env ''invoice'' 3 (Some ''alice'') example_world)
     = Inr [snd (collection example_world ! 0)]"
  by code_simp

theorem query_vectorstore_owner_isolation_witness:
  "''alice'' \<noteq> []
   \<and> fst (query_vectorstore example_settings example_env ''invoice'' 3 (Some ''alice'') example_world)
       = Inr [snd (collection example_world ! 0)]
   \<and> map_of (metadata (snd (collection example_world ! 0))) ''user_id'' = Some ''alice''
   \<and> map_of (metadata (snd (collection example_world ! 1))) ''user_id'' = Some ''bob''"
proof -
  have n: "''alice'' \<noteq> []" by simp
  from query_vectorstore_owner_isolation[OF n, of example_settings example_env "''invoice''" 3 example_world]
  obtain docs w' where
    q: "query_vectorstore example_settings example_env ''invoice'' 3 (Some ''alice'') example_world = (Inr docs, w')"
    and a: "\<forall>d \<in> set docs. map_of (metadata d) ''user_id'' = Some ''alice''"
    by blast
  from q example_query_alice have "docs = [snd (collection example_world ! 0)]" by simp
  with a have "map_of (metadata (snd (collection example_world ! 0))) ''user_id'' = Some ''alice''"
    by simp
  moreover have "map_of (metadata (snd (collection example_world ! 1))) ''user_id'' = Some ''bob''"
    by (simp add: example_world_def)
  ultimately show ?thesis using n example_query_alice by simp
qed

text \<open>
  Claim C4. \<open>query_vectorstore\<close> never propagates an error: it returns a result sequence
  for every input, and the sequence is empty whenever the underlying vector-store query
  fails (the store cannot be obtained after its retries, or the search itself raises).
\<close>

theorem query_vectorstore_degrades:
  "(\<exists>docs. fst (query_vectorstore st ev q k u w) = Inr docs)
   \<and> (underlying_query_fails st w \<longrightarrow> fst (query_vectorstore st ev q k u w) = Inr [])"
  using query_vectorstore_body_returns[of st ev q k u w] query_vectorstore_body_fails[of st w ev q k u]
  by (simp add: query_vectorstore_is_body)

theorem query_vectorstore_degrades_witness:
  "underlying_query_fails example_settings (example_world\<lparr>faults := [True]\<rparr>)
   \<and> fst (query_vectorstore example_settings example_env ''invoice'' 3 (Some ''alice'')
            (example_world\<lparr>faults := [True]\<rparr>)) = Inr []
   \<and> underlying_query_fails example_settings
         (example_world\<lparr>vector_store_global := False, faults := [False, True, True, True]\<rparr>)
   \<and> fst (query_vectorstore example_settings example_env ''invoice'' 3 (Some ''alice'')
            (example_world\<lparr>vector_store_global := False, faults := [False, True, True, True]\<rparr>)) = Inr []"
proof -
  have f1: "underlying_query_fails example_settings (example_world\<lparr>faults := [True]\<rparr>)"
    by code_simp
  have f2: "underlying_query_fails example_settings
         (example_world\<lparr>vector_store_global := False, faults := [False, True, True, True]\<rparr>)"
    by code_simp
  show ?thesis
    using f1 f2
      query_vectorstore_degrades[of example_settings example_env "''invoice''" 3 "Some ''alice''"
        "example_world\<lparr>faults := [True]\<rparr>"]
      query_vectorstore_degrades[of example_settings example_env "''invoice''" 3 "Some ''alice''"
        "example_world\<lparr>vector_store_global := False, faults := [False, True, True, True]\<rparr>"]
    by blast
qed

text \<open>
  Claim C10. With \<open>user_id\<close> absent (\<open>None\<close>) or the empty string no owner filter is
  applied: when the search succeeds, the result is the \<open>top_k\<close> nearest entries of the
  entire index, whatever their \<open>metadata.user_id\<close>.
\<close>

theorem query_vectorstore_without_owner:
  assumes "u = None \<or> u = Some []"
    and "q \<noteq> []" and "strip q \<noteq> []" and "\<not> underlying_query_fails st w"
  shows "fst (query_vectorstore st ev q k u w) =
           Inr (take (nat k) (sort_key (\<lambda>d. distance ev q (page_content d)) (map snd (collection w))))"
proof -
  from assms(1) have "\<not> truthy u" by (auto simp: truthy_def)
  from query_vectorstore_body_unfiltered[OF this assms(2-4)] show ?thesis
    by (simp add: query_vectorstore_is_body)
qed

theorem query_vectorstore_without_owner_witness:
  "fst (query_vectorstore example_settings example_env ''invoice'' 3 None example_world)
     = Inr [snd (collection example_world ! 0), snd (collection example_world ! 1)]
   \<and> fst (query_vectorstore example_settings example_env ''invoice'' 3 (Some []) example_world)
     = Inr [snd (collection example_world ! 0), snd (collection example_world ! 1)]
   \<and> map_of (metadata (snd (collection example_world ! 0))) ''user_id'' = Some ''alice''
   \<and> map_of (metadata (snd (collection example_world ! 1))) ''user_id'' = Some ''bob''"
proof -
  have q: "''invoice'' \<noteq> []" "strip ''invoice'' \<noteq> []"
    by code_simp+
  have f: "\<not> underlying_query_fails example_settings example_world"
    by code_simp
  have r: "take (nat 3) (sort_key (\<lambda>d. distance example_env ''invoice'' (page_content d))
             (map snd (collection example_world)))
           = [snd (collection example_world ! 0), snd (collection example_world ! 1)]"
    by code_simp
  have m: "map_of (metadata (snd (collection example_world ! 0))) ''user_id'' = Some ''alice''"
    "map_of (metadata (snd (collection example_world ! 1))) ''user_id'' = Some ''bob''"
    by (simp_all add: example_world_def)
  show ?thesis
    using query_vectorstore_without_owner[of None, OF _ q f, of example_env 3]
      query_vectorstore_without_owner[of "Some []", OF _ q f, of example_env 3] r m
    by simp
qed

subsection \<open>Answering\<close>

lemma query_vectorstore_same_store:
  "same_store w (snd (query_vectorstore st ev q k u w))"
  using query_vectorstore_body_same_store[of st ev q k u w]
  by (cases "query_vectorstore_body st ev q k u w") (simp add: query_vectorstore_is_body)

lemma query_documents_body_empty:
  assumes "fst (query_vectorstore st ev q k u w) = Inr []"
  shows "query_documents_body st ev q k u w
           = (Inr (no_documents_message, []), snd (query_vectorstore st ev q k u w))"
  using assms
  by (cases "query_vectorstore st ev q k u w") (simp add: query_documents_body_def)

text \<open>
  Claim C2. When the retrieval result is empty, \<open>query_documents\<close> returns normally with
  the fixed no-documents message and an empty list of sources, and no prompt is sent to
  the generation provider.
\<close>

theorem query_documents_no_documents:
  assumes "fst (query_vectorstore st ev q k u w) = Inr []"
  shows "fst (query_documents st ev q k u w)
           = Inr (''No relevant documents found to answer your question.'', [])
         \<and> llm_prompts (snd (query_documents st ev q k u w)) = llm_prompts w"
proof -
  have "query_documents st ev q k u w
          = (Inr (no_documents_message, []), snd (query_vectorstore st ev q k u w))"
    unfolding query_documents_def numeral_2_eq_2
    using query_documents_body_empty[OF assms] by (simp add: retry_Suc_Inr)
  then show ?thesis
    using query_vectorstore_same_store[of w st ev q k u]
    by (simp add: no_documents_message_def same_store_def)
qed

theorem query_documents_no_documents_witness:
  "fst (query_vectorstore example_settings example_env ''invoice'' 3 (Some ''carol'') example_world) = Inr []
   \<and> fst (query_documents example_settings example_env ''invoice'' 3 (Some ''carol'') example_world)
       = Inr (''No relevant documents found to answer your question.'', [])
   \<and> llm_prompts (snd (query_documents example_settings example_env ''invoice'' 3 (Some ''carol'')
        example_world)) = []
   \<and> length (llm_prompts (snd (query_documents example_settings example_env ''invoice'' 3
        (Some ''alice'') example_world))) = 1"
proof -
  have e: "fst (query_vectorstore example_settings example_env ''invoice'' 3 (Some ''carol'') example_world) = Inr []"
    by code_simp
  have p: "llm_prompts example_world = []"
    by (simp add: example_world_def)
  have a: "length (llm_prompts (snd (query_documents example_settings example_env ''invoice'' 3
        (Some ''alice'') example_world))) = 1"
    by code_simp
  show ?thesis
    using query_documents_no_documents[OF e] e p a by simp
qed

subsection \<open>The assembled context\<close>

lemma source_citation_citation:
  "map_of (metadata doc) ''page'' \<noteq> Some ''0'' \<Longrightarrow> source_citation doc = citation doc"
  by (simp add: source_citation_def citation_def page_info_def truthy_def Let_def
           split: option.splits)

lemma format_documents_loop_blocks:
  assumes "\<forall>doc \<in> set docs. map_of (metadata doc) ''page'' \<noteq> Some ''0''"
  shows "format_documents_loop i docs formatted_docs
     = formatted_docs
       @ map (\<lambda>(j, doc). context_block j doc) (zip [i + 1 ..< i + 1 + length docs] docs)"
  using assms
proof (induction docs arbitrary: i formatted_docs)
  case Nil
  then show ?case by simp
next
  case (Cons doc docs)
  have u: "[i + 1 ..< i + 1 + length (doc # docs)]
             = (i + 1) # [i + 1 + 1 ..< i + 1 + 1 + length docs]"
    by (subst upt_rec) simp
  have d: "source_citation doc = citation doc"
    using Cons.prems by (simp add: source_citation_citation)
  have r: "\<forall>doc \<in> set docs. map_of (metadata doc) ''page'' \<noteq> Some ''0''"
    using Cons.prems by simp
  show ?case
    unfolding u
    by (simp add: Cons.IH[OF r] context_block_def d)
qed

text \<open>
  Where no retrieved chunk carries the sentinel page \<open>0\<close>, the context built by
  \<open>format_documents\<close> is the one the specification describes: the newline-joined blocks,
  numbered from 1, each with the citation of its chunk.
\<close>

lemma format_documents_without_sentinel:
  assumes "\<forall>doc \<in> set docs. map_of (metadata doc) ''page'' \<noteq> Some ''0''"
  shows "format_documents docs = assembled_context docs"
  by (simp add: format_documents_def assembled_context_def format_documents_loop_blocks[OF assms])

text \<open>
  Claim C9 fails on the code for a chunk of a document without pages. The chunker stores
  the sentinel \<open>0\<close> as the page of every chunk of a text file, \<open>format_documents\<close> tests
  the page for truthiness only, and the sentinel is a non-empty string: the chunk of the
  text file \<open>c.txt\<close> is cited as \<open>c.txt (Page 0)\<close>, where the claim gives \<open>c.txt\<close>.
\<close>

theorem format_documents_cites_sentinel_page:
  "map (\<lambda>c. map_of (chunk_metadata c) ''page'')
     (fst (process_txt example_settings example_env ''c.txt'' ''d7'' ''c.txt'' ''carol'' example_world))
     = [Some ''0'']
   \<and> format_documents (map snd (entries_of 0
        (fst (process_txt example_settings example_env ''c.txt'' ''d7'' ''c.txt'' ''carol''
                example_world))))
     = ''Document 1 [c.txt (Page 0)]:\<newline>Plain text.\<newline>''
   \<and> assembled_context (map snd (entries_of 0
        (fst (process_txt example_settings example_env ''c.txt'' ''d7'' ''c.txt'' ''carol''
                example_world))))
     = ''Document 1 [c.txt]:\<newline>Plain text.\<newline>''"
  by code_simp

subsection \<open>Chunk metadata\<close>

lemma str_nat_not_empty: "str_nat n \<noteq> []"
  by (subst str_nat.simps) simp

lemma str_int_not_empty: "str_int i \<noteq> []"
  by (simp add: str_int_def str_nat_not_empty)

lemma chunk_with_metadata_page:
  "map_of (chunk_metadata (chunk_with_metadata ev page_num document_id filename user_id chunk)) ''page''
     = Some (case page_num of Some n \<Rightarrow> str_int n | None \<Rightarrow> ''0'')"
  by (simp add: chunk_with_metadata_def Let_def)

lemma create_chunks_with_metadata_member:
  assumes "c \<in> set (create_chunks_with_metadata st ev text_by_page document_id filename user_id)"
  shows "\<exists>page_num txt. (page_num, txt) \<in> set text_by_page
           \<and> c \<in> chunk_with_metadata ev page_num document_id filename user_id
                   ` set (text_splitter ev (CHUNK_SIZE st) (CHUNK_OVERLAP st) txt)"
  using assms
  by (induction st ev text_by_page document_id filename user_id
        rule: create_chunks_with_metadata.induct) auto

lemma pdf_pages_loop_numbers:
  assumes "pdf_pages_loop i pages = Inr text_by_page" and "(page_num, txt) \<in> set text_by_page"
  shows "\<exists>n. page_num = Some (int n) \<and> i < n"
  using assms
proof (induction i pages arbitrary: text_by_page rule: pdf_pages_loop.induct)
  case (1 i)
  then show ?case by simp
next
  case (2 i page pages)
  from "2.prems"(1) obtain page_text rest where
    p: "page = Inr page_text" and r: "pdf_pages_loop (i + 1) pages = Inr rest"
    and t: "text_by_page = (if strip page_text \<noteq> [] then (Some (int i + 1), page_text) # rest else rest)"
    by (auto split: sum.splits)
  from "2.prems"(2) t have "(page_num, txt) \<in> set rest \<or> page_num = Some (int i + 1)"
    by (auto split: if_splits)
  then show ?case
  proof
    assume "(page_num, txt) \<in> set rest"
    from "2.IH"[OF p r this] show ?thesis by auto
  next
    assume "page_num = Some (int i + 1)"
    then have "page_num = Some (int (i + 1)) \<and> i < i + 1" by simp
    then show ?thesis by blast
  qed
qed

lemma chunk_with_metadata_text:
  "chunk_text (chunk_with_metadata ev page_num document_id filename user_id chunk) = chunk"
  by (simp add: chunk_with_metadata_def Let_def)

lemma create_chunks_with_metadata_pages:
  "map (\<lambda>c. (chunk_text c, map_of (chunk_metadata c) ''page''))
     (create_chunks_with_metadata st ev text_by_page document_id filename user_id)
   = concat (map (\<lambda>(page_num, t).
        map (\<lambda>x. (x, Some (case page_num of Some n \<Rightarrow> str_int n | None \<Rightarrow> ''0'')))
          (text_splitter ev (CHUNK_SIZE st) (CHUNK_OVERLAP st) t)) text_by_page)"
  by (induction st ev text_by_page document_id filename user_id
        rule: create_chunks_with_metadata.induct)
     (simp_all add: chunk_with_metadata_text chunk_with_metadata_page comp_def)

lemma create_chunks_with_metadata_numbered:
  "map (\<lambda>c. (chunk_text c, map_of (chunk_metadata c) ''page''))
     (create_chunks_with_metadata st ev (map (\<lambda>(j, t). (Some (int j), t)) numbered)
        document_id filename user_id)
   = concat (map (\<lambda>(j, t).
        map (\<lambda>x. (x, Some (str_int (int j))))
          (text_splitter ev (CHUNK_SIZE st) (CHUNK_OVERLAP st) t)) numbered)"
  by (induction numbered)
     (auto simp: chunk_with_metadata_text chunk_with_metadata_page comp_def)

lemma pdf_pages_loop_texts:
  "pdf_pages_loop i (map Inr texts)
     = Inr (map (\<lambda>(j, t). (Some (int j), t))
             (filter (\<lambda>(j, t). strip t \<noteq> []) (zip [i + 1 ..< i + 1 + length texts] texts)))"
proof (induction texts arbitrary: i)
  case Nil
  show ?case by simp
next
  case (Cons t texts)
  have u: "[i + 1 ..< i + 1 + length (t # texts)]
             = (i + 1) # [i + 1 + 1 ..< i + 1 + 1 + length texts]"
    by (subst upt_rec) simp
  show ?case
    unfolding u using Cons.IH[of "i + 1"] by simp
qed

text \<open>
  Claim C6. Every chunk built by \<open>create_chunks_with_metadata\<close> carries a \<open>page\<close> entry
  in its metadata that is a non-empty string, never a missing value: unit by unit, in
  order, the chunks are the pieces of the unit's text, each with the unit's own label
  written as a string when the unit has a label, and \<open>0\<close> when it has none. The chunks
  of a DOCX or text file (scraped pages are ingested as text files) all carry \<open>0\<close>; the
  chunks of page \<open>j\<close> of a PDF, pages counted from 1 and blank pages skipped, carry \<open>j\<close>.
\<close>

theorem chunk_page_is_string:
  "map (\<lambda>c. (chunk_text c, map_of (chunk_metadata c) ''page''))
     (create_chunks_with_metadata st ev text_by_page document_id filename user_id)
   = concat (map (\<lambda>(page_num, t).
        map (\<lambda>x. (x, Some (case page_num of Some n \<Rightarrow> str_int n | None \<Rightarrow> ''0'')))
          (text_splitter ev (CHUNK_SIZE st) (CHUNK_OVERLAP st) t)) text_by_page)
   \<and> (\<forall>c \<in> set (create_chunks_with_metadata st ev text_by_page document_id filename user_id).
        \<exists>s. map_of (chunk_metadata c) ''page'' = Some s \<and> s \<noteq> [])
   \<and> (\<forall>c \<in> set (fst (process_docx st ev file_path document_id filename user_id w)).
        map_of (chunk_metadata c) ''page'' = Some ''0'')
   \<and> (\<forall>c \<in> set (fst (process_txt st ev file_path document_id filename user_id w)).
        map_of (chunk_metadata c) ''page'' = Some ''0'')
   \<and> (pdf_reader ev file_path = Inr (map Inr texts) \<longrightarrow>
        map (\<lambda>c. (chunk_text c, map_of (chunk_metadata c) ''page''))
          (fst (process_pdf st ev file_path document_id filename user_id w))
        = concat (map (\<lambda>(j, t).
            map (\<lambda>x. (x, Some (str_int (int j))))
              (text_splitter ev (CHUNK_SIZE st) (CHUNK_OVERLAP st) t))
            (filter (\<lambda>(j, t). strip t \<noteq> []) (zip [1 ..< length texts + 1] texts))))"
proof (intro conjI ballI impI)
  show "map (\<lambda>c. (chunk_text c, map_of (chunk_metadata c) ''page''))
     (create_chunks_with_metadata st ev text_by_page document_id filename user_id)
   = concat (map (\<lambda>(page_num, t).
        map (\<lambda>x. (x, Some (case page_num of Some n \<Rightarrow> str_int n | None \<Rightarrow> ''0'')))
          (text_splitter ev (CHUNK_SIZE st) (CHUNK_OVERLAP st) t)) text_by_page)"
    by (rule create_chunks_with_metadata_pages)
next
  fix c
  assume "c \<in> set (create_chunks_with_metadata st ev text_by_page document_id filename user_id)"
  from create_chunks_with_metadata_member[OF this]
  obtain page_num t0 where
    "c \<in> chunk_with_metadata ev page_num document_id filename user_id
                   ` set (text_splitter ev (CHUNK_SIZE st) (CHUNK_OVERLAP st) t0)"
    by blast
  moreover have "(case page_num of Some n \<Rightarrow> str_int n | None \<Rightarrow> ''0'') \<noteq> []"
    by (simp add: str_int_not_empty split: option.splits)
  ultimately show "\<exists>s. map_of (chunk_metadata c) ''page'' = Some s \<and> s \<noteq> []"
    using chunk_with_metadata_page by blast
next
  fix c
  assume "c \<in> set (fst (process_docx st ev file_path document_id filename user_id w))"
  then obtain t0 where
    "c \<in> set (create_chunks_with_metadata st ev [(None, t0)] document_id filename user_id)"
    by (auto simp: process_docx_def Let_def split: sum.splits)
  from create_chunks_with_metadata_member[OF this]
  show "map_of (chunk_metadata c) ''page'' = Some ''0''"
    using chunk_with_metadata_page[of ev None] by auto
next
  fix c
  assume "c \<in> set (fst (process_txt st ev file_path document_id filename user_id w))"
  then obtain t0 where
    "c \<in> set (create_chunks_with_metadata st ev [(None, t0)] document_id filename user_id)"
    by (auto simp: process_txt_def process_txt_text_def split: sum.splits error.splits if_splits)
  from create_chunks_with_metadata_member[OF this]
  show "map_of (chunk_metadata c) ''page'' = Some ''0''"
    using chunk_with_metadata_page[of ev None] by auto
next
  assume r: "pdf_reader ev file_path = Inr (map Inr texts)"
  let ?numbered = "filter (\<lambda>(j, t). strip t \<noteq> []) (zip [1 ..< length texts + 1] texts)"
  have l: "pdf_pages_loop 0 (map Inr texts) = Inr (map (\<lambda>(j, t). (Some (int j), t)) ?numbered)"
    using pdf_pages_loop_texts[of 0 texts] by simp
  have "fst (process_pdf st ev file_path document_id filename user_id w)
          = create_chunks_with_metadata st ev (map (\<lambda>(j, t). (Some (int j), t)) ?numbered)
              document_id filename user_id"
    by (simp add: process_pdf_def r l)
  then show "map (\<lambda>c. (chunk_text c, map_of (chunk_metadata c) ''page''))
          (fst (process_pdf st ev file_path document_id filename user_id w))
        = concat (map (\<lambda>(j, t).
            map (\<lambda>x. (x, Some (str_int (int j))))
              (text_splitter ev (CHUNK_SIZE st) (CHUNK_OVERLAP st) t)) ?numbered)"
    by (simp only: create_chunks_with_metadata_numbered)
qed

lemma example_pdf_chunks:
  "pdf_reader example_env ''a.pdf'' = Inr (map Inr [''Alpha.'', '' '', ''Gamma.''])"
  "concat (map (\<lambda>(j, t).
            map (\<lambda>x. (x, Some (str_int (int j))))
              (text_splitter example_env (CHUNK_SIZE example_settings)
                 (CHUNK_OVERLAP example_settings) t))
            (filter (\<lambda>(j, t). strip t \<noteq> [])
               (zip [1 ..< length [''Alpha.'', '' '', ''Gamma.''] + 1]
                  [''Alpha.'', '' '', ''Gamma.''])))
   = [(''Alpha.'', Some ''1''), (''Gamma.'', Some ''3'')]"
  by code_simp+

lemma example_docx_chunks:
  "map (\<lambda>c. map_of (chunk_metadata c) ''page'')
     (fst (process_docx example_settings example_env ''b.docx'' ''d8'' ''b.docx'' ''carol'' example_world))
   = [Some ''0'']"
  by code_simp

lemma example_txt_chunks:
  "map (\<lambda>c. map_of (chunk_metadata c) ''page'')
     (fst (process_txt example_settings example_env ''c.txt'' ''d7'' ''c.txt'' ''carol'' example_world))
   = [Some ''0'']"
  by code_simp

theorem chunk_page_is_string_witness:
  "map (\<lambda>c. (chunk_text c, map_of (chunk_metadata c) ''page''))
     (fst (process_pdf example_settings example_env ''a.pdf'' ''d9'' ''a.pdf'' ''carol'' example_world))
   = [(''Alpha.'', Some ''1''), (''Gamma.'', Some ''3'')]
   \<and> map (\<lambda>c. map_of (chunk_metadata c) ''page'')
     (fst (process_docx example_settings example_env ''b.docx'' ''d8'' ''b.docx'' ''carol'' example_world))
   = [Some ''0'']
   \<and> map (\<lambda>c. map_of (chunk_metadata c) ''page'')
     (fst (process_txt example_settings example_env ''c.txt'' ''d7'' ''c.txt'' ''carol'' example_world))
   = [Some ''0'']
   \<and> list_all (\<lambda>c. map_of (chunk_metadata c) ''page'' = Some ''0'')
       (fst (process_txt example_settings example_env ''c.txt'' ''d7'' ''c.txt'' ''carol'' example_world))"
proof -
  note t = chunk_page_is_string[of example_settings example_env "[]" "''d9''" "''a.pdf''" "''carol''"
        "''a.pdf''" example_world "[''Alpha.'', '' '', ''Gamma.'']"]
  have p: "map (\<lambda>c. (chunk_text c, map_of (chunk_metadata c) ''page''))
     (fst (process_pdf example_settings example_env ''a.pdf'' ''d9'' ''a.pdf'' ''carol'' example_world))
   = [(''Alpha.'', Some ''1''), (''Gamma.'', Some ''3'')]"
    using t example_pdf_chunks by simp
  have "\<forall>c \<in> set (fst (process_txt example_settings example_env ''c.txt'' ''d7'' ''c.txt'' ''carol''
                      example_world)). map_of (chunk_metadata c) ''page'' = Some ''0''"
    using chunk_page_is_string[of example_settings example_env "[]" "''d7''" "''c.txt''" "''carol''"
        "''c.txt''" example_world "[]"]
    by blast
  then have "list_all (\<lambda>c. map_of (chunk_metadata c) ''page'' = Some ''0'')
       (fst (process_txt example_settings example_env ''c.txt'' ''d7'' ''c.txt'' ''carol'' example_world))"
    by (simp add: list_all_iff)
  then show ?thesis
    using p example_docx_chunks example_txt_chunks by simp
qed

subsection \<open>Deleting a document from the index\<close>

lemma retry_3_Inr: "fst (f w) = Inr v \<Longrightarrow> retry 3 f w = f w"
  unfolding numeral_3_eq_3 by (rule retry_Suc_Inr)

lemma collection_get_eq:
  "collection_get flt w =
     (if fst (provider_call w) then (Inl ProviderError, snd (provider_call w))
      else (Inr (map fst (filter (\<lambda>e. matches flt (snd e)) (collection w))), snd (provider_call w)))"
proof (cases "provider_call w")
  case (Pair b w1)
  then have "collection w1 = collection w"
    using provider_call_fields(1)[of w] by simp
  with Pair show ?thesis by (simp add: collection_get_def)
qed

lemma collection_delete_eq:
  "collection_delete ids w =
     (if fst (provider_call w) then (Inl ProviderError, snd (provider_call w))
      else (Inr (), (snd (provider_call w))
                      \<lparr>collection := filter (\<lambda>e. fst e \<notin> set ids) (collection w)\<rparr>))"
proof (cases "provider_call w")
  case (Pair b w1)
  then have "collection w1 = collection w"
    using provider_call_fields(1)[of w] by simp
  with Pair show ?thesis by (simp add: collection_delete_def)
qed

lemma matches_document_id:
  "matches (Some (''document_id'', document_id)) (snd e) = document_id_is document_id e"
  by (simp add: matches_def document_id_is_def)

lemma delete_by_ids:
  assumes "distinct (map fst xs)"
  shows "filter (\<lambda>e. fst e \<notin> set (map fst (filter P xs))) xs = filter (\<lambda>e. \<not> P e) xs"
proof (rule filter_cong[OF refl])
  fix e
  assume e: "e \<in> set xs"
  have "inj_on fst (set xs)" using assms by (simp add: distinct_map)
  then have "\<And>e'. e' \<in> set xs \<Longrightarrow> fst e' = fst e \<Longrightarrow> e' = e"
    using e by (auto dest: inj_onD)
  then show "(fst e \<notin> set (map fst (filter P xs))) = (\<not> P e)"
    using e by auto
qed

lemma nothing_to_delete:
  assumes "map fst (filter P xs) = []"
  shows "filter (\<lambda>e. \<not> P e) xs = xs"
  using assms by (induction xs) (auto split: if_splits)

lemma delete_document_from_vectorstore_body_effect:
  assumes d: "distinct (map fst (collection w))" and n: "document_id \<noteq> []"
    and b: "delete_document_from_vectorstore_body st document_id w = (r, w')"
  shows "case r of
           Inl e \<Rightarrow> collection w' = collection w
         | Inr v \<Rightarrow> v = None
             \<and> collection w' = filter (\<lambda>e. \<not> document_id_is document_id e) (collection w)"
proof (cases "get_vector_store st w")
  case (Pair r1 w1)
  from get_vector_store_same_store[OF Pair]
  have c1: "collection w1 = collection w" and r1: "r1 = Inr True \<or> r1 = Inl RetryError"
    by (auto simp: same_store_def)
  show ?thesis
  proof (cases r1)
    case (Inl e)
    with Pair b n c1 show ?thesis
      by (auto simp: delete_document_from_vectorstore_body_def)
  next
    case (Inr v)
    with r1 have v: "r1 = Inr True" by simp
    let ?P = "document_id_is document_id"
    let ?ids = "map fst (filter ?P (collection w))"
    have del: "filter (\<lambda>e. fst e \<notin> set ?ids) (collection w) = filter (\<lambda>e. \<not> ?P e) (collection w)"
      by (rule delete_by_ids[OF d])
    have none: "?ids = [] \<Longrightarrow> filter (\<lambda>e. \<not> ?P e) (collection w) = collection w"
      by (rule nothing_to_delete)
    show ?thesis
      using Pair b n c1 v del none
      by (auto simp: delete_document_from_vectorstore_body_def collection_get_eq
            collection_delete_eq matches_document_id
          split: if_splits)
  qed
qed

lemma delete_document_from_vectorstore_effect:
  assumes d: "distinct (map fst (collection w))" and n: "document_id \<noteq> []"
  shows "case delete_document_from_vectorstore st document_id w of
           (Inl e, w') \<Rightarrow> e = RetryError \<and> collection w' = collection w
         | (Inr v, w') \<Rightarrow> v = None
             \<and> collection w' = filter (\<lambda>e. \<not> document_id_is document_id e) (collection w)"
  unfolding delete_document_from_vectorstore_def
proof (rule retry_rule[where I = "\<lambda>w0. collection w0 = collection w"])
  show "collection w = collection w" by simp
next
  fix w0 r w'
  assume i: "collection w0 = collection w"
    and b: "delete_document_from_vectorstore_body st document_id w0 = (r, w')"
  from d i have "distinct (map fst (collection w0))" by simp
  from delete_document_from_vectorstore_body_effect[OF this n b] i
  show "case r of Inl e \<Rightarrow> collection w' = collection w
        | Inr v \<Rightarrow> v = None
            \<and> collection w' = filter (\<lambda>e. \<not> document_id_is document_id e) (collection w)"
    by (simp split: sum.splits)
qed

lemma get_vector_store_body_no_fault:
  assumes "faults w = []"
  shows "\<exists>w'. get_vector_store_body st w = (Inr True, w') \<and> faults w' = []"
  using assms
  by (simp add: get_vector_store_body_def get_embeddings_def provider_call_def logger_def Let_def)

lemma get_vector_store_no_fault:
  assumes "faults w = []"
  shows "\<exists>w'. get_vector_store st w = (Inr True, w') \<and> faults w' = []"
proof -
  from get_vector_store_body_no_fault[OF assms] obtain w' where
    "get_vector_store_body st w = (Inr True, w')" and "faults w' = []" by blast
  then show ?thesis
    by (simp add: get_vector_store_def numeral_3_eq_3)
qed

lemma delete_document_from_vectorstore_no_fault:
  assumes "faults w = []"
  shows "fst (delete_document_from_vectorstore st document_id w) = Inr None"
proof -
  from get_vector_store_no_fault[OF assms] obtain w1 where
    g: "get_vector_store st w = (Inr True, w1)" and f: "faults w1 = []" by blast
  have "fst (delete_document_from_vectorstore_body st document_id w) = Inr None"
    using g f
    by (simp add: delete_document_from_vectorstore_body_def collection_get_eq
          collection_delete_eq provider_call_no_fault)
  then show ?thesis
    by (simp add: delete_document_from_vectorstore_def retry_3_Inr)
qed

lemma delete_document_from_vectorstore_body_logs:
  assumes n: "document_id \<noteq> []"
    and b: "delete_document_from_vectorstore_body st document_id w = (Inr v, w')"
  shows "last (log w')
           = (if 0 < length (filter (document_id_is document_id) (collection w))
              then (INFO, ''Deleted ''
                          @ str_nat (length (filter (document_id_is document_id) (collection w)))
                          @ '' chunks for document '' @ document_id)
              else (WARNING, ''No chunks found for document '' @ document_id))"
proof (cases "get_vector_store st w")
  case (Pair r1 w1)
  from get_vector_store_same_store[OF Pair]
  have c1: "collection w1 = collection w" and r1: "r1 = Inr True \<or> r1 = Inl RetryError"
    by (auto simp: same_store_def)
  show ?thesis
  proof (cases r1)
    case (Inl e)
    with Pair b n show ?thesis
      by (simp add: delete_document_from_vectorstore_body_def)
  next
    case (Inr u)
    with r1 have v: "r1 = Inr True" by simp
    show ?thesis
      using Pair b n c1 v
      by (auto simp: delete_document_from_vectorstore_body_def collection_get_eq
            collection_delete_eq matches_document_id logger_def
          split: if_splits)
  qed
qed

lemma delete_document_from_vectorstore_logs:
  assumes d: "distinct (map fst (collection w))" and n: "document_id \<noteq> []"
  shows "case delete_document_from_vectorstore st document_id w of
           (Inl e, w') \<Rightarrow> e = RetryError \<and> collection w' = collection w
         | (Inr v, w') \<Rightarrow>
             last (log w')
               = (if 0 < length (filter (document_id_is document_id) (collection w))
                  then (INFO, ''Deleted ''
                              @ str_nat (length (filter (document_id_is document_id) (collection w)))
                              @ '' chunks for document '' @ document_id)
                  else (WARNING, ''No chunks found for document '' @ document_id))"
  unfolding delete_document_from_vectorstore_def
proof (rule retry_rule[where I = "\<lambda>w0. collection w0 = collection w"])
  show "collection w = collection w" by simp
next
  fix w0 r w'
  assume i: "collection w0 = collection w"
    and b: "delete_document_from_vectorstore_body st document_id w0 = (r, w')"
  from d i have d0: "distinct (map fst (collection w0))" by simp
  show "case r of Inl e \<Rightarrow> collection w' = collection w
        | Inr v \<Rightarrow>
            last (log w')
              = (if 0 < length (filter (document_id_is document_id) (collection w))
                 then (INFO, ''Deleted ''
                             @ str_nat (length (filter (document_id_is document_id) (collection w)))
                             @ '' chunks for document '' @ document_id)
                 else (WARNING, ''No chunks found for document '' @ document_id))"
  proof (cases r)
    case (Inl e)
    with delete_document_from_vectorstore_body_effect[OF d0 n b] i show ?thesis by simp
  next
    case (Inr v)
    with delete_document_from_vectorstore_body_logs[OF n, of st w0 v w'] b i show ?thesis
      by simp
  qed
qed

text \<open>
  Claim C3, as amended. For every non-empty \<open>document_id\<close>,
  \<open>delete_document_from_vectorstore\<close> either returns \<open>None\<close> (no count) and the index
  has lost exactly the entries whose \<open>metadata.document_id\<close> is the given one, whatever
  their owner, or raises \<open>RetryError\<close> after three failed attempts and leaves the index
  as it was. When no provider call fails it returns, also when nothing matches, so a
  second call for the same id returns as well and removes nothing. The number of entries
  removed goes to the log only: on a return the last log entry is the message with that
  number, or the warning that no chunk was found when it is 0. For the empty id the
  function returns at once and the index is unchanged.
\<close>

theorem delete_document_from_vectorstore_removes:
  assumes "distinct (map fst (collection w))" and "document_id \<noteq> []"
  shows "((fst (delete_document_from_vectorstore st document_id w) = Inr None
           \<and> collection (snd (delete_document_from_vectorstore st document_id w))
               = filter (\<lambda>e. \<not> document_id_is document_id e) (collection w))
          \<or> (fst (delete_document_from_vectorstore st document_id w) = Inl RetryError
              \<and> collection (snd (delete_document_from_vectorstore st document_id w)) = collection w))
         \<and> (faults w = [] \<longrightarrow> fst (delete_document_from_vectorstore st document_id w) = Inr None)
         \<and> (fst (delete_document_from_vectorstore st document_id w) = Inr None \<longrightarrow>
              collection (snd (delete_document_from_vectorstore st document_id
                 (snd (delete_document_from_vectorstore st document_id w))))
              = collection (snd (delete_document_from_vectorstore st document_id w)))
         \<and> (fst (delete_document_from_vectorstore st document_id w) = Inr None \<longrightarrow>
              last (log (snd (delete_document_from_vectorstore st document_id w)))
                = (if 0 < length (filter (document_id_is document_id) (collection w))
                   then (INFO, ''Deleted ''
                               @ str_nat (length (filter (document_id_is document_id) (collection w)))
                               @ '' chunks for document '' @ document_id)
                   else (WARNING, ''No chunks found for document '' @ document_id)))
         \<and> fst (delete_document_from_vectorstore st [] w) = Inr None
         \<and> collection (snd (delete_document_from_vectorstore st [] w)) = collection w"
proof -
  let ?P = "\<lambda>e. \<not> document_id_is document_id e"
  obtain r w1 where dl: "delete_document_from_vectorstore st document_id w = (r, w1)"
    by (cases "delete_document_from_vectorstore st document_id w")
  have a: "(r = Inr None \<and> collection w1 = filter ?P (collection w))
           \<or> (r = Inl RetryError \<and> collection w1 = collection w)"
    using delete_document_from_vectorstore_effect[OF assms, of st] dl
    by (auto split: sum.splits)
  have b: "faults w = [] \<longrightarrow> r = Inr None"
    using delete_document_from_vectorstore_no_fault[of w st document_id] dl by simp
  have c: "r = Inr None \<longrightarrow>
             collection (snd (delete_document_from_vectorstore st document_id w1)) = collection w1"
  proof
    assume "r = Inr None"
    with a have w1: "collection w1 = filter ?P (collection w)" by auto
    then have d1: "distinct (map fst (collection w1))"
      using assms(1) by (simp add: distinct_map_filter)
    obtain r2 w2 where d2: "delete_document_from_vectorstore st document_id w1 = (r2, w2)"
      by (cases "delete_document_from_vectorstore st document_id w1")
    have "collection w2 = filter ?P (collection w1) \<or> collection w2 = collection w1"
      using delete_document_from_vectorstore_effect[OF d1 assms(2), of st] d2
      by (auto split: sum.splits)
    then show "collection (snd (delete_document_from_vectorstore st document_id w1)) = collection w1"
      using d2 w1 by auto
  qed
  have e: "delete_document_from_vectorstore st [] w
             = (Inr None, logger WARNING ''No document_id provided for deletion'' w)"
    by (simp add: delete_document_from_vectorstore_def numeral_3_eq_3
          delete_document_from_vectorstore_body_def)
  have l: "r = Inr None \<longrightarrow>
             last (log w1)
               = (if 0 < length (filter (document_id_is document_id) (collection w))
                  then (INFO, ''Deleted ''
                              @ str_nat (length (filter (document_id_is document_id) (collection w)))
                              @ '' chunks for document '' @ document_id)
                  else (WARNING, ''No chunks found for document '' @ document_id))"
    using delete_document_from_vectorstore_logs[OF assms, of st] dl by (cases r) simp_all
  show ?thesis using a b c e l dl by simp
qed

lemma example_delete:
  "fst (delete_document_from_vectorstore example_settings ''d1'' example_world) = Inr None"
  "collection (snd (delete_document_from_vectorstore example_settings ''d1'' example_world))
     = [collection example_world ! 1]"
  "fst (delete_document_from_vectorstore example_settings ''d1''
          (snd (delete_document_from_vectorstore example_settings ''d1'' example_world))) = Inr None"
  "log (snd (delete_document_from_vectorstore example_settings ''d1'' example_world))
     = [(INFO, ''Deleted 1 chunks for document d1'')]"
  "fst (delete_document_from_vectorstore example_settings ''d1''
          (example_world\<lparr>faults := [True, True, True]\<rparr>)) = Inl RetryError"
  by code_simp+

theorem delete_document_from_vectorstore_removes_witness:
  "distinct (map fst (collection example_world)) \<and> ''d1'' \<noteq> []
   \<and> fst (delete_document_from_vectorstore example_settings ''d1'' example_world) = Inr None
   \<and> collection (snd (delete_document_from_vectorstore example_settings ''d1'' example_world))
       = [collection example_world ! 1]
   \<and> collection (snd (delete_document_from_vectorstore example_settings ''d1''
        (snd (delete_document_from_vectorstore example_settings ''d1'' example_world))))
       = [collection example_world ! 1]
   \<and> fst (delete_document_from_vectorstore example_settings ''d1''
          (example_world\<lparr>faults := [True, True, True]\<rparr>)) = Inl RetryError
   \<and> log (snd (delete_document_from_vectorstore example_settings ''d1'' example_world))
       = [(INFO, ''Deleted 1 chunks for document d1'')]"
proof -
  have d: "distinct (map fst (collection example_world))"
    by (simp add: example_world_def)
  have n: "''d1'' \<noteq> []" by simp
  show ?thesis
    using delete_document_from_vectorstore_removes[OF d n, of example_settings] example_delete d
    by simp
qed

theorem delete_document_from_vectorstore_returns_count_counterexample:
  "fst (delete_document_from_vectorstore example_settings ''d1'' example_world) = Inr None
   \<and> fst (delete_document_from_vectorstore example_settings ''d1'' example_world) \<noteq> Inr (Some 1)
   \<and> length (collection example_world)
       - length (collection (snd (delete_document_from_vectorstore example_settings ''d1''
                                    example_world))) = 1
   \<and> collection (snd (delete_document_from_vectorstore example_settings []
        (example_world\<lparr>collection :=
           [(0, \<lparr>page_content = ''x'', metadata = [(''document_id'', [])]\<rparr>)]\<rparr>)))
       = [(0, \<lparr>page_content = ''x'', metadata = [(''document_id'', [])]\<rparr>)]"
  by code_simp

subsection \<open>Functions that only write to the log\<close>

lemma forget_log_fields [simp]:
  "collection (forget_log w) = collection w"
  "next_id (forget_log w) = next_id w"
  "faults (forget_log w) = faults w"
  "llm_prompts (forget_log w) = llm_prompts w"
  "vector_store_global (forget_log w) = vector_store_global w"
  "embeddings_cached (forget_log w) = embeddings_cached w"
  by (simp_all add: forget_log_def)

lemma forget_log_updates [simp]:
  "forget_log (logger lv m w) = forget_log w"
  "forget_log (w\<lparr>log := l\<rparr>) = forget_log w"
  "forget_log (w\<lparr>faults := fs\<rparr>) = (forget_log w)\<lparr>faults := fs\<rparr>"
  "forget_log (w\<lparr>embeddings_cached := b\<rparr>) = (forget_log w)\<lparr>embeddings_cached := b\<rparr>"
  "forget_log (w\<lparr>vector_store_global := b\<rparr>) = (forget_log w)\<lparr>vector_store_global := b\<rparr>"
  "forget_log (w\<lparr>collection := c\<rparr>) = (forget_log w)\<lparr>collection := c\<rparr>"
  "forget_log (w\<lparr>next_id := n\<rparr>) = (forget_log w)\<lparr>next_id := n\<rparr>"
  by (simp_all add: forget_log_def logger_def)

lemma forget_log_eqD:
  assumes "forget_log w1 = forget_log w2"
  shows "collection w1 = collection w2" "next_id w1 = next_id w2" "faults w1 = faults w2"
    "vector_store_global w1 = vector_store_global w2" "embeddings_cached w1 = embeddings_cached w2"
proof -
  show "collection w1 = collection w2"
    using arg_cong[OF assms, of collection] by simp
  show "next_id w1 = next_id w2"
    using arg_cong[OF assms, of next_id] by simp
  show "faults w1 = faults w2"
    using arg_cong[OF assms, of faults] by simp
  show "vector_store_global w1 = vector_store_global w2"
    using arg_cong[OF assms, of vector_store_global] by simp
  show "embeddings_cached w1 = embeddings_cached w2"
    using arg_cong[OF assms, of embeddings_cached] by simp
qed

lemma log_logger_prefix [simp]: "prefix (log w) (log (logger lv m w))"
  by (simp add: logger_def)

lemma log_write_onlyI:
  assumes "\<And>w1 w2. forget_log w1 = forget_log w2 \<Longrightarrow>
             fst (f w1) = fst (f w2) \<and> forget_log (snd (f w1)) = forget_log (snd (f w2))"
    and "\<And>w. prefix (log w) (log (snd (f w)))"
  shows "log_write_only f"
  unfolding log_write_only_def using assms by blast

lemma log_write_onlyD:
  assumes "log_write_only f" and "forget_log w1 = forget_log w2"
  shows "fst (f w1) = fst (f w2)" and "forget_log (snd (f w1)) = forget_log (snd (f w2))"
  using assms unfolding log_write_only_def by blast+

lemma log_write_only_prefix:
  assumes "log_write_only f"
  shows "prefix (log w) (log (snd (f w)))"
  using assms unfolding log_write_only_def by blast

lemma log_write_only_cong:
  assumes "\<And>w. f w = g w" and "log_write_only g"
  shows "log_write_only f"
proof -
  have "f = g" using assms(1) by (rule ext)
  with assms(2) show ?thesis by simp
qed

lemma log_write_only_return: "log_write_only (\<lambda>w. (c, w))"
  by (rule log_write_onlyI) simp_all

lemma log_write_only_logged:
  assumes "log_write_only f"
  shows "log_write_only (\<lambda>w. f (logger lv m w))"
proof (rule log_write_onlyI)
  fix w1 w2
  assume "forget_log w1 = forget_log w2"
  then have "forget_log (logger lv m w1) = forget_log (logger lv m w2)"
    by simp
  from log_write_onlyD[OF assms this]
  show "fst (f (logger lv m w1)) = fst (f (logger lv m w2))
        \<and> forget_log (snd (f (logger lv m w1))) = forget_log (snd (f (logger lv m w2)))"
    by simp
next
  fix w
  have "prefix (log w) (log (logger lv m w))" by simp
  also have "prefix \<dots> (log (snd (f (logger lv m w))))"
    by (rule log_write_only_prefix[OF assms])
  finally show "prefix (log w) (log (snd (f (logger lv m w))))" .
qed

lemma log_write_only_bind:
  assumes "log_write_only f" and "\<And>r. log_write_only (g r)"
  shows "log_write_only (\<lambda>w. case f w of (r, w') \<Rightarrow> g r w')"
proof (rule log_write_onlyI)
  fix w1 w2
  assume e: "forget_log w1 = forget_log w2"
  obtain r1 v1 where 1: "f w1 = (r1, v1)" by (cases "f w1")
  obtain r2 v2 where 2: "f w2 = (r2, v2)" by (cases "f w2")
  from log_write_onlyD[OF assms(1) e] 1 2 have r: "r1 = r2" and v: "forget_log v1 = forget_log v2"
    by simp_all
  from log_write_onlyD[OF assms(2)[of r2] v] 1 2 r
  show "fst (case f w1 of (r, w') \<Rightarrow> g r w') = fst (case f w2 of (r, w') \<Rightarrow> g r w')
        \<and> forget_log (snd (case f w1 of (r, w') \<Rightarrow> g r w'))
            = forget_log (snd (case f w2 of (r, w') \<Rightarrow> g r w'))"
    by simp
next
  fix w
  obtain r v where 1: "f w = (r, v)" by (cases "f w")
  have "prefix (log w) (log v)"
    using log_write_only_prefix[OF assms(1), of w] 1 by simp
  also have "prefix \<dots> (log (snd (g r v)))"
    by (rule log_write_only_prefix[OF assms(2)])
  finally show "prefix (log w) (log (snd (case f w of (r, w') \<Rightarrow> g r w')))"
    using 1 by simp
qed

lemma log_write_only_sum:
  assumes "\<And>e. log_write_only (a e)" and "\<And>v. log_write_only (b v)"
  shows "log_write_only (\<lambda>w. case r of Inl e \<Rightarrow> a e w | Inr v \<Rightarrow> b v w)"
  using assms by (cases r) simp_all

lemma log_write_only_bool:
  assumes "log_write_only f" and "log_write_only g"
  shows "log_write_only (\<lambda>w. case c of True \<Rightarrow> f w | False \<Rightarrow> g w)"
  using assms by (cases c) simp_all

lemma log_write_only_if:
  assumes "log_write_only f" and "log_write_only g"
  shows "log_write_only (\<lambda>w. if c then f w else g w)"
  using assms by (cases c) simp_all

lemma log_write_only_field:
  assumes "\<And>w1 w2. forget_log w1 = forget_log w2 \<Longrightarrow> P w1 = P w2"
    and "log_write_only f" and "log_write_only g"
  shows "log_write_only (\<lambda>w. if P w then f w else g w)"
proof (rule log_write_onlyI)
  fix w1 w2
  assume e: "forget_log w1 = forget_log w2"
  from assms(1)[OF e] log_write_onlyD[OF assms(2) e] log_write_onlyD[OF assms(3) e]
  show "fst (if P w1 then f w1 else g w1) = fst (if P w2 then f w2 else g w2)
        \<and> forget_log (snd (if P w1 then f w1 else g w1))
            = forget_log (snd (if P w2 then f w2 else g w2))"
    by simp
next
  fix w
  from log_write_only_prefix[OF assms(2), of w] log_write_only_prefix[OF assms(3), of w]
  show "prefix (log w) (log (snd (if P w then f w else g w)))"
    by simp
qed

lemma log_provider_call [simp]: "log (snd (provider_call w)) = log w"
  by (simp add: provider_call_def split: list.splits)

lemma log_write_only_provider_call: "log_write_only provider_call"
proof (rule log_write_onlyI)
  fix w1 w2
  assume e: "forget_log w1 = forget_log w2"
  from forget_log_eqD(3)[OF e] e
  show "fst (provider_call w1) = fst (provider_call w2)
        \<and> forget_log (snd (provider_call w1)) = forget_log (snd (provider_call w2))"
    by (simp add: provider_call_def split: list.splits)
next
  fix w
  show "prefix (log w) (log (snd (provider_call w)))" by simp
qed

lemma log_write_only_retry:
  assumes "log_write_only f"
  shows "log_write_only (retry n f)"
proof (induction n)
  case 0
  show ?case by (rule log_write_onlyI) simp_all
next
  case (Suc n)
  show ?case
  proof (rule log_write_onlyI)
    fix w1 w2
    assume e: "forget_log w1 = forget_log w2"
    obtain r1 v1 where 1: "f w1 = (r1, v1)" by (cases "f w1")
    obtain r2 v2 where 2: "f w2 = (r2, v2)" by (cases "f w2")
    from log_write_onlyD[OF assms e] 1 2 have r: "r1 = r2" and v: "forget_log v1 = forget_log v2"
      by simp_all
    have 1: "f w1 = (r2, v1)"
      using 1 r by simp
    show "fst (retry (Suc n) f w1) = fst (retry (Suc n) f w2)
          \<and> forget_log (snd (retry (Suc n) f w1)) = forget_log (snd (retry (Suc n) f w2))"
    proof (cases r2)
      case (Inl e)
      have "retry (Suc n) f w1 = retry n f v1" "retry (Suc n) f w2 = retry n f v2"
        using 1 2 Inl by simp_all
      then show ?thesis
        using log_write_onlyD[OF Suc.IH v] by simp
    next
      case (Inr x)
      have "retry (Suc n) f w1 = (Inr x, v1)" "retry (Suc n) f w2 = (Inr x, v2)"
        using 1 2 Inr by simp_all
      then show ?thesis
        using v by simp
    qed
  next
    fix w
    obtain r v where 1: "f w = (r, v)" by (cases "f w")
    have p: "prefix (log w) (log v)"
      using log_write_only_prefix[OF assms, of w] 1 by simp
    show "prefix (log w) (log (snd (retry (Suc n) f w)))"
    proof (cases r)
      case (Inl e)
      have "prefix (log v) (log (snd (retry n f v)))"
        by (rule log_write_only_prefix[OF Suc.IH])
      with p have "prefix (log w) (log (snd (retry n f v)))"
        by (rule prefix_order.trans)
      then show ?thesis using 1 Inl by simp
    next
      case (Inr x)
      then show ?thesis using 1 p by simp
    qed
  qed
qed

lemma log_write_only_embeddings_cached:
  "log_write_only (\<lambda>w. (c, w\<lparr>embeddings_cached := True\<rparr>))"
  by (rule log_write_onlyI) simp_all

lemma log_write_only_get_embeddings: "log_write_only (get_embeddings st)"
  apply (rule log_write_only_cong[OF get_embeddings_def])
  unfolding Let_def
  apply (rule log_write_only_field)
    apply (erule forget_log_eqD)
   apply (rule log_write_only_return)
  apply (cases "truthy (OPENAI_API_KEY st)")
   apply simp
   apply (rule log_write_only_bind)
    apply (rule log_write_only_provider_call)
   apply (rule log_write_only_bool)
    apply (rule log_write_only_logged[OF log_write_only_return])
   apply (rule log_write_only_embeddings_cached)
  apply simp
  apply (rule log_write_only_logged)
  apply (rule log_write_only_bind)
   apply (rule log_write_only_provider_call)
  apply (rule log_write_only_bool)
   apply (rule log_write_only_logged[OF log_write_only_return])
  apply (rule log_write_only_embeddings_cached)
  done

lemma log_write_only_vector_store_global:
  assumes "log_write_only f"
  shows "log_write_only (\<lambda>w. f (w\<lparr>vector_store_global := True\<rparr>))"
proof (rule log_write_onlyI)
  fix w1 w2
  assume "forget_log w1 = forget_log w2"
  then have "forget_log (w1\<lparr>vector_store_global := True\<rparr>)
               = forget_log (w2\<lparr>vector_store_global := True\<rparr>)"
    by simp
  from log_write_onlyD[OF assms this]
  show "fst (f (w1\<lparr>vector_store_global := True\<rparr>)) = fst (f (w2\<lparr>vector_store_global := True\<rparr>))
        \<and> forget_log (snd (f (w1\<lparr>vector_store_global := True\<rparr>)))
            = forget_log (snd (f (w2\<lparr>vector_store_global := True\<rparr>)))"
    by simp
next
  fix w
  from log_write_only_prefix[OF assms, of "w\<lparr>vector_store_global := True\<rparr>"]
  show "prefix (log w) (log (snd (f (w\<lparr>vector_store_global := True\<rparr>))))"
    by simp
qed

lemma log_write_only_flag: "log_write_only (\<lambda>w. (Inr (vector_store_global w), w))"
proof (rule log_write_onlyI)
  fix w1 w2
  assume e: "forget_log w1 = forget_log w2"
  from forget_log_eqD(4)[OF e] e
  show "fst (Inr (vector_store_global w1), w1) = fst (Inr (vector_store_global w2), w2)
        \<and> forget_log (snd (Inr (vector_store_global w1), w1))
            = forget_log (snd (Inr (vector_store_global w2), w2))"
    by simp
next
  fix w
  show "prefix (log w) (log (snd (Inr (vector_store_global w), w)))" by simp
qed

lemma log_write_only_get_vector_store_body: "log_write_only (get_vector_store_body st)"
  apply (rule log_write_only_cong[OF get_vector_store_body_def])
  apply (rule log_write_only_field)
    apply (drule forget_log_eqD(4))
    apply simp
   apply (rule log_write_only_bind)
    apply (rule log_write_only_get_embeddings)
   apply (rule log_write_only_sum)
    apply (rule log_write_only_logged[OF log_write_only_return])
   apply (rule log_write_only_bind)
    apply (rule log_write_only_provider_call)
   apply (rule log_write_only_bool)
    apply (rule log_write_only_logged[OF log_write_only_return])
   apply (rule log_write_only_vector_store_global)
   apply (rule log_write_only_logged[OF log_write_only_return])
  apply (rule log_write_only_flag)
  done

lemma log_write_only_get_vector_store: "log_write_only (get_vector_store st)"
  apply (rule log_write_only_cong[OF get_vector_store_def[THEN fun_cong]])
  apply (rule log_write_only_retry)
  apply (rule log_write_only_get_vector_store_body)
  done

lemma log_write_only_added:
  "log_write_only
     (\<lambda>w. (c, w\<lparr>collection := collection w @ zip [next_id w ..< next_id w + length docs] docs,
                 next_id := next_id w + length docs\<rparr>))"
proof (rule log_write_onlyI)
  fix w1 w2
  assume e: "forget_log w1 = forget_log w2"
  from forget_log_eqD(1,2)[OF e] e
  show "fst (c, w1\<lparr>collection := collection w1 @ zip [next_id w1 ..< next_id w1 + length docs] docs,
                 next_id := next_id w1 + length docs\<rparr>)
        = fst (c, w2\<lparr>collection := collection w2 @ zip [next_id w2 ..< next_id w2 + length docs] docs,
                 next_id := next_id w2 + length docs\<rparr>)
        \<and> forget_log (snd (c, w1\<lparr>collection := collection w1 @ zip [next_id w1 ..< next_id w1 + length docs] docs,
                 next_id := next_id w1 + length docs\<rparr>))
         = forget_log (snd (c, w2\<lparr>collection := collection w2 @ zip [next_id w2 ..< next_id w2 + length docs] docs,
                 next_id := next_id w2 + length docs\<rparr>))"
    by simp
next
  fix w
  show "prefix (log w) (log (snd (c, w\<lparr>collection := collection w @ zip [next_id w ..< next_id w + length docs] docs,
                 next_id := next_id w + length docs\<rparr>)))"
    by simp
qed

lemma log_write_only_add_documents: "log_write_only (add_documents docs)"
  apply (rule log_write_only_cong[OF add_documents_def])
  apply (rule log_write_only_bind)
   apply (rule log_write_only_provider_call)
  apply (rule log_write_only_bool)
   apply (rule log_write_only_return)
  apply (rule log_write_only_added)
  done

lemma log_write_only_counted:
  "log_write_only (\<lambda>w. (Inr (length (collection w)), w))"
proof (rule log_write_onlyI)
  fix w1 w2
  assume e: "forget_log w1 = forget_log w2"
  from forget_log_eqD(1)[OF e] e
  show "fst (Inr (length (collection w1)), w1) = fst (Inr (length (collection w2)), w2)
        \<and> forget_log (snd (Inr (length (collection w1)), w1))
            = forget_log (snd (Inr (length (collection w2)), w2))"
    by simp
next
  fix w
  show "prefix (log w) (log (snd (Inr (length (collection w)), w)))" by simp
qed

lemma log_write_only_collection_count: "log_write_only collection_count"
  apply (rule log_write_only_cong[OF collection_count_def])
  apply (rule log_write_only_bind)
   apply (rule log_write_only_provider_call)
  apply (rule log_write_only_bool)
   apply (rule log_write_only_return)
  apply (rule log_write_only_counted)
  done

lemma log_write_only_add_documents_to_vectorstore_body:
  "log_write_only (add_documents_to_vectorstore_body st chunks)"
  apply (rule log_write_only_cong[OF add_documents_to_vectorstore_body_def])
  unfolding Let_def
  apply (rule log_write_only_if)
   apply (rule log_write_only_logged[OF log_write_only_return])
  apply (rule log_write_only_bind)
   apply (rule log_write_only_get_vector_store)
  apply (rule log_write_only_sum)
   apply (rule log_write_only_logged[OF log_write_only_return])
  apply (rule log_write_only_if)
   apply (rule log_write_only_logged[OF log_write_only_return])
  apply (rule log_write_only_bind)
   apply (rule log_write_only_add_documents)
  apply (rule log_write_only_sum)
   apply (rule log_write_only_logged[OF log_write_only_return])
  apply (rule log_write_only_logged)
  apply (rule log_write_only_bind)
   apply (rule log_write_only_collection_count)
  apply (rule log_write_only_sum)
   apply (rule log_write_only_logged[OF log_write_only_return])
  apply (rule log_write_only_logged[OF log_write_only_return])
  done

lemma log_write_only_add_documents_to_vectorstore:
  "log_write_only (add_documents_to_vectorstore st chunks)"
  apply (rule log_write_only_cong[OF add_documents_to_vectorstore_def[THEN fun_cong]])
  apply (rule log_write_only_retry)
  apply (rule log_write_only_add_documents_to_vectorstore_body)
  done

subsection \<open>Ingestion\<close>

lemma logger_only_log: "logger lv m w = w\<lparr>log := log (logger lv m w)\<rparr>"
  by (simp add: logger_def)

lemma process_pdf_only_logs:
  "snd (process_pdf st ev fp d f u w) = w\<lparr>log := log (snd (process_pdf st ev fp d f u w))\<rparr>"
  by (simp add: process_pdf_def logger_def split: sum.splits)

lemma process_docx_only_logs:
  "snd (process_docx st ev fp d f u w) = w\<lparr>log := log (snd (process_docx st ev fp d f u w))\<rparr>"
  by (simp add: process_docx_def logger_def Let_def split: sum.splits)

lemma process_txt_only_logs:
  "snd (process_txt st ev fp d f u w) = w\<lparr>log := log (snd (process_txt st ev fp d f u w))\<rparr>"
  by (simp add: process_txt_def process_txt_text_def logger_def split: sum.splits error.splits)

lemma entries_of_Nil [simp]: "entries_of n [] = []"
  by (simp add: entries_of_def)

lemma add_documents_eq:
  "add_documents docs w =
     (if fst (provider_call w) then (Inl ProviderError, snd (provider_call w))
      else (Inr (), (snd (provider_call w))
              \<lparr>collection := collection w @ zip [next_id w ..< next_id w + length docs] docs,
               next_id := next_id w + length docs\<rparr>))"
proof (cases "provider_call w")
  case (Pair b w1)
  then have "collection w1 = collection w" "next_id w1 = next_id w"
    using provider_call_fields(1,2)[of w] by simp_all
  with Pair show ?thesis by (simp add: add_documents_def)
qed

lemma collection_count_same_store: "collection_count w = (r, w') \<Longrightarrow> same_store w w'"
  by (auto simp: collection_count_def split: prod.splits bool.splits
           dest!: same_store_provider_call)

lemma add_documents_to_vectorstore_body_effect:
  assumes "add_documents_to_vectorstore_body st chunks w = (r, w')"
  shows "case r of
           Inl e \<Rightarrow> collection w' = collection w \<and> next_id w' = next_id w
         | Inr v \<Rightarrow> collection w' = collection w @ entries_of (next_id w) chunks"
proof (cases "chunks = []")
  case True
  with assms show ?thesis
    by (auto simp: add_documents_to_vectorstore_body_def)
next
  case False
  obtain r1 w1 where g: "get_vector_store st w = (r1, w1)"
    by (cases "get_vector_store st w")
  from get_vector_store_same_store[OF g]
  have c1: "collection w1 = collection w" "next_id w1 = next_id w"
    and r1: "r1 = Inr True \<or> r1 = Inl RetryError"
    by (auto simp: same_store_def)
  from r1 show ?thesis
  proof
    assume "r1 = Inl RetryError"
    with assms False g c1 show ?thesis
      by (auto simp: add_documents_to_vectorstore_body_def)
  next
    assume v: "r1 = Inr True"
    show ?thesis
    proof (cases "fst (provider_call w1)")
      case True
      with assms False g c1 v show ?thesis
        by (auto simp: add_documents_to_vectorstore_body_def Let_def add_documents_eq)
    next
      case f: False
      let ?w2 = "(snd (provider_call w1))
              \<lparr>collection := collection w @ entries_of (next_id w) chunks,
               next_id := next_id w + length chunks\<rparr>"
      let ?w3 = "logger INFO (''Added '' @ str_nat (length chunks) @ '' chunks to vector store'') ?w2"
      have a: "add_documents (map (\<lambda>c. \<lparr>page_content = chunk_text c, metadata = chunk_metadata c\<rparr>) chunks) w1
                 = (Inr (), ?w2)"
        using f c1 by (simp add: add_documents_eq entries_of_def)
      obtain r4 w4 where cc: "collection_count ?w3 = (r4, w4)"
        by (cases "collection_count ?w3")
      from collection_count_same_store[OF cc]
      have "collection w4 = collection w @ entries_of (next_id w) chunks"
        by (simp add: same_store_def)
      with assms False g v a cc show ?thesis
        by (auto simp: add_documents_to_vectorstore_body_def Let_def split: sum.splits)
    qed
  qed
qed

lemma add_documents_to_vectorstore_effect:
  "case add_documents_to_vectorstore st chunks w of
     (Inl e, w') \<Rightarrow> e = RetryError \<and> collection w' = collection w \<and> next_id w' = next_id w
   | (Inr v, w') \<Rightarrow> collection w' = collection w @ entries_of (next_id w) chunks"
  unfolding add_documents_to_vectorstore_def
proof (rule retry_rule[where I = "\<lambda>w0. collection w0 = collection w \<and> next_id w0 = next_id w"])
  show "collection w = collection w \<and> next_id w = next_id w" by simp
next
  fix w0 r w'
  assume i: "collection w0 = collection w \<and> next_id w0 = next_id w"
    and b: "add_documents_to_vectorstore_body st chunks w0 = (r, w')"
  from add_documents_to_vectorstore_body_effect[OF b] i
  show "case r of Inl e \<Rightarrow> collection w' = collection w \<and> next_id w' = next_id w
        | Inr v \<Rightarrow> collection w' = collection w @ entries_of (next_id w) chunks"
    by (simp split: sum.splits)
qed

lemma add_chunks_effect:
  "fst (add_chunks st document_id chunks w) = Inr ()
   \<and> (collection (snd (add_chunks st document_id chunks w)) = collection w
       \<or> (chunks \<noteq> []
           \<and> collection (snd (add_chunks st document_id chunks w))
               = collection w @ entries_of (next_id w) chunks))"
proof (cases "chunks = []")
  case True
  then show ?thesis by (simp add: add_chunks_def)
next
  case False
  let ?w0 = "logger INFO (''Adding '' @ str_nat (length chunks)
                @ '' chunks to vector store for document '' @ document_id) w"
  obtain r w1 where a: "add_documents_to_vectorstore st chunks ?w0 = (r, w1)"
    by (cases "add_documents_to_vectorstore st chunks ?w0")
  from add_documents_to_vectorstore_effect[where st = st and chunks = chunks and w = ?w0] a
  have "case r of Inl e \<Rightarrow> collection w1 = collection w
        | Inr v \<Rightarrow> collection w1 = collection w @ entries_of (next_id w) chunks"
    by (simp split: sum.splits)
  with a False show ?thesis
    by (auto simp: add_chunks_def split: sum.splits)
qed

lemma add_chunks_no_chunks:
  "add_chunks st document_id [] w
     = (Inr (), logger WARNING (''No text chunks extracted from document '' @ document_id) w)"
  by (simp add: add_chunks_def)

lemma get_vector_store_ready:
  "vector_store_global w \<Longrightarrow> get_vector_store st w = (Inr True, w)"
  by (simp add: get_vector_store_def numeral_3_eq_3 get_vector_store_body_def)

lemma add_documents_to_vectorstore_body_fault:
  assumes "vector_store_global w" and "faults w = True # fs" and "chunks \<noteq> []"
  shows "\<exists>w'. add_documents_to_vectorstore_body st chunks w = (Inl ProviderError, w')
           \<and> vector_store_global w' \<and> faults w' = fs \<and> collection w' = collection w"
  using assms
  by (simp add: add_documents_to_vectorstore_body_def get_vector_store_ready Let_def
        add_documents_eq provider_call_def logger_def)

lemma add_documents_to_vectorstore_three_faults:
  assumes "vector_store_global w" and "faults w = True # True # True # fs" and "chunks \<noteq> []"
  shows "\<exists>w'. add_documents_to_vectorstore st chunks w = (Inl RetryError, w')
           \<and> collection w' = collection w"
proof -
  from add_documents_to_vectorstore_body_fault[OF assms(1,2,3), where st = st] obtain w1 where
    1: "add_documents_to_vectorstore_body st chunks w = (Inl ProviderError, w1)"
    and g1: "vector_store_global w1" and f1: "faults w1 = True # True # fs"
    and c1: "collection w1 = collection w" by blast
  from add_documents_to_vectorstore_body_fault[OF g1 f1 assms(3), where st = st] obtain w2 where
    2: "add_documents_to_vectorstore_body st chunks w1 = (Inl ProviderError, w2)"
    and g2: "vector_store_global w2" and f2: "faults w2 = True # fs"
    and c2: "collection w2 = collection w1" by blast
  from add_documents_to_vectorstore_body_fault[OF g2 f2 assms(3), where st = st] obtain w3 where
    3: "add_documents_to_vectorstore_body st chunks w2 = (Inl ProviderError, w3)"
    and c3: "collection w3 = collection w2" by blast
  show ?thesis
    using 1 2 3 c1 c2 c3
    by (simp add: add_documents_to_vectorstore_def numeral_3_eq_3)
qed

lemma add_chunks_three_faults:
  assumes "vector_store_global w" and "take 3 (faults w) = [True, True, True]"
  shows "collection (snd (add_chunks st document_id chunks w)) = collection w"
proof (cases "chunks = []")
  case True
  then show ?thesis by (simp add: add_chunks_def)
next
  case False
  have "faults w = take 3 (faults w) @ drop 3 (faults w)" by simp
  with assms(2) have f: "faults w = True # True # True # drop 3 (faults w)" by simp
  let ?w0 = "logger INFO (''Adding '' @ str_nat (length chunks)
                @ '' chunks to vector store for document '' @ document_id) w"
  have "vector_store_global ?w0" "faults ?w0 = True # True # True # drop 3 (faults w)"
    using assms(1) f by simp_all
  from add_documents_to_vectorstore_three_faults[OF this False, where st = st]
  show ?thesis using False by (auto simp: add_chunks_def)
qed

lemma only_log_fields:
  assumes "w1 = w\<lparr>log := l\<rparr>"
  shows "collection w1 = collection w" "next_id w1 = next_id w" "faults w1 = faults w"
    "vector_store_global w1 = vector_store_global w"
  using assms by simp_all

lemma add_chunks_after_extraction:
  assumes "w1 = w\<lparr>log := l\<rparr>" and "r = add_chunks st document_id chunks w1"
  shows "fst r = Inr ()
    \<and> (collection (snd r) = collection w
        \<or> (\<exists>chunks. chunks \<noteq> [] \<and> collection (snd r) = collection w @ entries_of (next_id w) chunks))
    \<and> (vector_store_global w \<and> take 3 (faults w) = [True, True, True] \<longrightarrow>
          collection (snd r) = collection w)"
  using add_chunks_effect[of st document_id chunks w1]
    add_chunks_three_faults[of w1 st document_id chunks] only_log_fields[OF assms(1)] assms(2)
  by auto

lemma process_document_body_effect:
  assumes "w0 = w\<lparr>log := l\<rparr>"
  shows "fst (process_document_body st ev file_path document_id filename user_id w0) = Inr ()
    \<and> (collection (snd (process_document_body st ev file_path document_id filename user_id w0))
          = collection w
        \<or> (\<exists>chunks. chunks \<noteq> []
              \<and> collection (snd (process_document_body st ev file_path document_id filename user_id w0))
                  = collection w @ entries_of (next_id w) chunks))
    \<and> (vector_store_global w \<and> take 3 (faults w) = [True, True, True] \<longrightarrow>
          collection (snd (process_document_body st ev file_path document_id filename user_id w0))
            = collection w)"
proof -
  let ?body = "process_document_body st ev file_path document_id filename user_id w0"
  consider (pdf) "endswith file_path ''.pdf''"
    | (docx) "\<not> endswith file_path ''.pdf''" "endswith file_path ''.docx''"
    | (plain) "\<not> endswith file_path ''.pdf''" "\<not> endswith file_path ''.docx''"
        "endswith file_path ''.txt''"
    | (other) "\<not> endswith file_path ''.pdf''" "\<not> endswith file_path ''.docx''"
        "\<not> endswith file_path ''.txt''"
    by blast
  then show ?thesis
  proof cases
    case pdf
    let ?p = "process_pdf st ev file_path document_id filename user_id w0"
    have 1: "snd ?p = w\<lparr>log := log (snd ?p)\<rparr>"
      by (subst process_pdf_only_logs) (simp add: assms)
    have 2: "?body = add_chunks st document_id (fst ?p) (snd ?p)"
      using pdf by (simp add: process_document_body_def split: prod.splits)
    from add_chunks_after_extraction[OF 1 2] show ?thesis .
  next
    case docx
    let ?p = "process_docx st ev file_path document_id filename user_id w0"
    have 1: "snd ?p = w\<lparr>log := log (snd ?p)\<rparr>"
      by (subst process_docx_only_logs) (simp add: assms)
    have 2: "?body = add_chunks st document_id (fst ?p) (snd ?p)"
      using docx by (simp add: process_document_body_def split: prod.splits)
    from add_chunks_after_extraction[OF 1 2] show ?thesis .
  next
    case plain
    let ?p = "process_txt st ev file_path document_id filename user_id w0"
    have 1: "snd ?p = w\<lparr>log := log (snd ?p)\<rparr>"
      by (subst process_txt_only_logs) (simp add: assms)
    have 2: "?body = add_chunks st document_id (fst ?p) (snd ?p)"
      using plain by (simp add: process_document_body_def split: prod.splits)
    from add_chunks_after_extraction[OF 1 2] show ?thesis .
  next
    case other
    then have "?body = (Inr (), logger ERROR (''Unsupported file type: '' @ file_path) w0)"
      by (simp add: process_document_body_def)
    then show ?thesis by (simp add: assms)
  qed
qed

lemma process_document_is_body:
  "process_document st ev file_path document_id filename user_id w
     = process_document_body st ev file_path document_id filename user_id
         (logger INFO (''Processing document: '' @ filename @ '' (ID: '' @ document_id
                       @ '') for user: '' @ user_id) w)"
proof -
  let ?w0 = "logger INFO (''Processing document: '' @ filename @ '' (ID: '' @ document_id
                       @ '') for user: '' @ user_id) w"
  have "?w0 = w\<lparr>log := log ?w0\<rparr>" by (rule logger_only_log)
  from process_document_body_effect[OF this, of st ev file_path document_id filename user_id]
  have "fst (process_document_body st ev file_path document_id filename user_id ?w0) = Inr ()"
    by simp
  then show ?thesis
    by (cases "process_document_body st ev file_path document_id filename user_id ?w0")
       (simp add: process_document_def)
qed

lemma failure_loggedI:
  assumes "collection w' = collection w" and "log w' = log w @ new" and "(ERROR, msg) \<in> set new"
  shows "failure_logged msg w w'"
  using assms by (simp add: failure_logged_def)

lemma process_pdf_any_world:
  "fst (process_pdf st ev fp d f u w1) = fst (process_pdf st ev fp d f u w2)"
  by (simp add: process_pdf_def split: sum.splits)

lemma process_docx_any_world:
  "fst (process_docx st ev fp d f u w1) = fst (process_docx st ev fp d f u w2)"
  by (simp add: process_docx_def Let_def split: sum.splits)

lemma process_txt_any_world:
  "fst (process_txt st ev fp d f u w1) = fst (process_txt st ev fp d f u w2)"
  by (simp add: process_txt_def process_txt_text_def split: sum.splits error.splits)

lemma extracted_chunks_any_world:
  "extracted_chunks st ev fp d f u w1 = extracted_chunks st ev fp d f u w2"
  unfolding extracted_chunks_def
  using process_pdf_any_world[of st ev fp d f u w1 w2]
    process_docx_any_world[of st ev fp d f u w1 w2]
    process_txt_any_world[of st ev fp d f u w1 w2]
  by simp

lemma process_pdf_log: "prefix (log w) (log (snd (process_pdf st ev fp d f u w)))"
  by (simp add: process_pdf_def split: sum.splits)

lemma process_docx_log: "prefix (log w) (log (snd (process_docx st ev fp d f u w)))"
  by (simp add: process_docx_def Let_def split: sum.splits)

lemma process_txt_log: "prefix (log w) (log (snd (process_txt st ev fp d f u w)))"
  by (simp add: process_txt_def process_txt_text_def logger_def split: sum.splits error.splits)

lemma process_pdf_forget: "forget_log (snd (process_pdf st ev fp d f u w)) = forget_log w"
  by (subst process_pdf_only_logs) simp

lemma process_docx_forget: "forget_log (snd (process_docx st ev fp d f u w)) = forget_log w"
  by (subst process_docx_only_logs) simp

lemma process_txt_forget: "forget_log (snd (process_txt st ev fp d f u w)) = forget_log w"
  by (subst process_txt_only_logs) simp

lemma pdf_pages_loop_failing_page:
  "pdf_pages_loop i (map Inr texts @ Inl e # rest) = Inl e"
  by (induction texts arbitrary: i) simp_all

lemma process_document_supported:
  assumes "endswith file_path ''.pdf'' \<or> endswith file_path ''.docx'' \<or> endswith file_path ''.txt''"
  shows "\<exists>w1. process_document st ev file_path document_id filename user_id w
               = add_chunks st document_id
                   (extracted_chunks st ev file_path document_id filename user_id w) w1
             \<and> forget_log w1 = forget_log w \<and> prefix (log w) (log w1)"
proof -
  let ?w0 = "logger INFO (''Processing document: '' @ filename @ '' (ID: '' @ document_id
                       @ '') for user: '' @ user_id) w"
  have p0: "prefix (log w) (log ?w0)" by simp
  consider (pdf) "endswith file_path ''.pdf''"
    | (docx) "\<not> endswith file_path ''.pdf''" "endswith file_path ''.docx''"
    | (plain) "\<not> endswith file_path ''.pdf''" "\<not> endswith file_path ''.docx''"
        "endswith file_path ''.txt''"
    using assms by blast
  then show ?thesis
  proof cases
    case pdf
    let ?p = "process_pdf st ev file_path document_id filename user_id ?w0"
    have "process_document st ev file_path document_id filename user_id w
            = add_chunks st document_id (fst ?p) (snd ?p)"
      using pdf by (simp add: process_document_is_body process_document_body_def split: prod.splits)
    moreover have "fst ?p = extracted_chunks st ev file_path document_id filename user_id w"
      using pdf process_pdf_any_world[of st ev file_path document_id filename user_id ?w0 w]
      by (simp add: extracted_chunks_def)
    moreover have "forget_log (snd ?p) = forget_log w"
      by (simp add: process_pdf_forget)
    moreover have "prefix (log w) (log (snd ?p))"
      using p0 process_pdf_log[of ?w0 st ev file_path document_id filename user_id]
      by (rule prefix_order.trans)
    ultimately show ?thesis by metis
  next
    case docx
    let ?p = "process_docx st ev file_path document_id filename user_id ?w0"
    have "process_document st ev file_path document_id filename user_id w
            = add_chunks st document_id (fst ?p) (snd ?p)"
      using docx by (simp add: process_document_is_body process_document_body_def split: prod.splits)
    moreover have "fst ?p = extracted_chunks st ev file_path document_id filename user_id w"
      using docx process_docx_any_world[of st ev file_path document_id filename user_id ?w0 w]
      by (simp add: extracted_chunks_def)
    moreover have "forget_log (snd ?p) = forget_log w"
      by (simp add: process_docx_forget)
    moreover have "prefix (log w) (log (snd ?p))"
      using p0 process_docx_log[of ?w0 st ev file_path document_id filename user_id]
      by (rule prefix_order.trans)
    ultimately show ?thesis by metis
  next
    case plain
    let ?p = "process_txt st ev file_path document_id filename user_id ?w0"
    have "process_document st ev file_path document_id filename user_id w
            = add_chunks st document_id (fst ?p) (snd ?p)"
      using plain by (simp add: process_document_is_body process_document_body_def split: prod.splits)
    moreover have "fst ?p = extracted_chunks st ev file_path document_id filename user_id w"
      using plain process_txt_any_world[of st ev file_path document_id filename user_id ?w0 w]
      by (simp add: extracted_chunks_def)
    moreover have "forget_log (snd ?p) = forget_log w"
      by (simp add: process_txt_forget)
    moreover have "prefix (log w) (log (snd ?p))"
      using p0 process_txt_log[of ?w0 st ev file_path document_id filename user_id]
      by (rule prefix_order.trans)
    ultimately show ?thesis by metis
  qed
qed

lemma add_chunks_outcome:
  assumes fl: "forget_log w1 = forget_log w" and pre: "prefix (log w) (log w1)"
    and ne: "chunks \<noteq> []"
  shows "fst (add_documents_to_vectorstore st chunks w) = Inl e \<Longrightarrow>
           failure_logged (''Error adding document to vector store: '' @ str_error e) w
             (snd (add_chunks st document_id chunks w1))"
    and "fst (add_documents_to_vectorstore st chunks w) = Inr () \<Longrightarrow>
           collection (snd (add_chunks st document_id chunks w1))
             = collection w @ entries_of (next_id w) chunks
           \<and> last (log (snd (add_chunks st document_id chunks w1)))
             = (INFO, ''Document '' @ document_id @ '' processed successfully'')"
proof -
  let ?w0 = "logger INFO (''Adding '' @ str_nat (length chunks)
                @ '' chunks to vector store for document '' @ document_id) w1"
  obtain r w2 where a: "add_documents_to_vectorstore st chunks ?w0 = (r, w2)"
    by (cases "add_documents_to_vectorstore st chunks ?w0")
  have f0: "forget_log ?w0 = forget_log w" using fl by simp
  from log_write_onlyD(1)[OF log_write_only_add_documents_to_vectorstore f0, of st chunks] a
  have r: "fst (add_documents_to_vectorstore st chunks w) = r" by simp
  have c0: "collection ?w0 = collection w" "next_id ?w0 = next_id w"
    using forget_log_eqD(1,2)[OF f0] by simp_all
  from add_documents_to_vectorstore_effect[where st = st and chunks = chunks and w = ?w0] a c0
  have eff: "case r of Inl e \<Rightarrow> collection w2 = collection w
        | Inr v \<Rightarrow> collection w2 = collection w @ entries_of (next_id w) chunks"
    by (simp split: sum.splits)
  have "prefix (log ?w0) (log w2)"
    using log_write_only_prefix[OF log_write_only_add_documents_to_vectorstore, of ?w0 st chunks] a
    by simp
  with pre have "prefix (log w) (log w2)"
    by (meson log_logger_prefix prefix_order.trans)
  then obtain zs where zs: "log w2 = log w @ zs" by (auto simp: prefix_def)
  {
    assume "fst (add_documents_to_vectorstore st chunks w) = Inl e"
    with r have r: "r = Inl e" by simp
    with a ne have "add_chunks st document_id chunks w1
        = (Inr (), logger ERROR (''Error adding document to vector store: '' @ str_error e) w2)"
      by (simp add: add_chunks_def)
    moreover have "failure_logged (''Error adding document to vector store: '' @ str_error e) w
        (logger ERROR (''Error adding document to vector store: '' @ str_error e) w2)"
    proof (rule failure_loggedI)
      show "collection (logger ERROR (''Error adding document to vector store: '' @ str_error e) w2)
              = collection w"
        using eff r by simp
      show "log (logger ERROR (''Error adding document to vector store: '' @ str_error e) w2)
              = log w @ (zs @ [(ERROR, ''Error adding document to vector store: '' @ str_error e)])"
        using zs by (simp add: logger_def)
      show "(ERROR, ''Error adding document to vector store: '' @ str_error e)
              \<in> set (zs @ [(ERROR, ''Error adding document to vector store: '' @ str_error e)])"
        by simp
    qed
    ultimately show "failure_logged (''Error adding document to vector store: '' @ str_error e) w
             (snd (add_chunks st document_id chunks w1))"
      by simp
  }
  {
    assume "fst (add_documents_to_vectorstore st chunks w) = Inr ()"
    with r have r: "r = Inr ()" by simp
    with a ne have "add_chunks st document_id chunks w1
        = (Inr (), logger INFO (''Document '' @ document_id @ '' processed successfully'') w2)"
      by (simp add: add_chunks_def)
    then show "collection (snd (add_chunks st document_id chunks w1))
             = collection w @ entries_of (next_id w) chunks
           \<and> last (log (snd (add_chunks st document_id chunks w1)))
             = (INFO, ''Document '' @ document_id @ '' processed successfully'')"
      using eff r by (simp add: logger_def)
  }
qed

lemma failure_logged_no_chunks:
  "failure_logged msg w (snd (add_chunks st document_id [] (logger ERROR msg (logger INFO m w))))"
  by (simp add: add_chunks_no_chunks failure_logged_def logger_def)

lemma process_document_unsupported_failure:
  assumes "\<not> endswith file_path ''.pdf''" "\<not> endswith file_path ''.docx''"
    "\<not> endswith file_path ''.txt''"
  shows "failure_logged (''Unsupported file type: '' @ file_path) w
           (snd (process_document st ev file_path document_id filename user_id w))"
  using assms
  by (simp add: process_document_is_body process_document_body_def failure_logged_def logger_def)

lemma process_document_pdf_failure:
  assumes "endswith file_path ''.pdf''"
    and "pdf_reader ev file_path = Inl e
         \<or> pdf_reader ev file_path = Inr (map Inr texts @ Inl e # rest)"
  shows "failure_logged (''Error processing PDF '' @ file_path @ '': '' @ str_error e) w
           (snd (process_document st ev file_path document_id filename user_id w))"
proof -
  have "process_document st ev file_path document_id filename user_id w
          = add_chunks st document_id []
              (logger ERROR (''Error processing PDF '' @ file_path @ '': '' @ str_error e)
                 (logger INFO (''Processing document: '' @ filename @ '' (ID: '' @ document_id
                       @ '') for user: '' @ user_id) w))"
    using assms
    by (auto simp: process_document_is_body process_document_body_def process_pdf_def
          pdf_pages_loop_failing_page)
  then show ?thesis
    by (simp only: failure_logged_no_chunks)
qed

lemma process_document_docx_failure:
  assumes "\<not> endswith file_path ''.pdf''" "endswith file_path ''.docx''"
    and "docx_reader ev file_path = Inl e"
  shows "failure_logged (''Error processing DOCX '' @ file_path @ '': '' @ str_error e) w
           (snd (process_document st ev file_path document_id filename user_id w))"
proof -
  have "process_document st ev file_path document_id filename user_id w
          = add_chunks st document_id []
              (logger ERROR (''Error processing DOCX '' @ file_path @ '': '' @ str_error e)
                 (logger INFO (''Processing document: '' @ filename @ '' (ID: '' @ document_id
                       @ '') for user: '' @ user_id) w))"
    using assms
    by (simp add: process_document_is_body process_document_body_def process_docx_def)
  then show ?thesis
    by (simp only: failure_logged_no_chunks)
qed

lemma process_document_txt_failure:
  assumes "\<not> endswith file_path ''.pdf''" "\<not> endswith file_path ''.docx''"
    "endswith file_path ''.txt''"
    and "(open_utf8 ev file_path = Inl e \<and> e \<noteq> UnicodeDecodeError)
         \<or> (open_utf8 ev file_path = Inl UnicodeDecodeError \<and> open_latin1 ev file_path = Inl e)"
  shows "failure_logged (''Error processing TXT '' @ file_path @ '': '' @ str_error e) w
           (snd (process_document st ev file_path document_id filename user_id w))"
proof -
  have "process_document st ev file_path document_id filename user_id w
          = add_chunks st document_id []
              (logger ERROR (''Error processing TXT '' @ file_path @ '': '' @ str_error e)
                 (logger INFO (''Processing document: '' @ filename @ '' (ID: '' @ document_id
                       @ '') for user: '' @ user_id) w))"
    using assms
    by (auto simp: process_document_is_body process_document_body_def process_txt_def
          split: error.splits)
  then show ?thesis
    by (simp only: failure_logged_no_chunks)
qed

lemma process_document_no_chunks:
  assumes "extracted_chunks st ev file_path document_id filename user_id w = []"
  shows "collection (snd (process_document st ev file_path document_id filename user_id w))
           = collection w"
proof (cases "endswith file_path ''.pdf'' \<or> endswith file_path ''.docx''
              \<or> endswith file_path ''.txt''")
  case True
  from process_document_supported[OF True, of st ev document_id filename user_id w] assms
  obtain w1 where "process_document st ev file_path document_id filename user_id w
                     = add_chunks st document_id [] w1" and "forget_log w1 = forget_log w"
    by auto
  then show ?thesis
    using forget_log_eqD(1)[of w1 w] by (simp add: add_chunks_no_chunks)
next
  case False
  then show ?thesis
    by (simp add: process_document_is_body process_document_body_def)
qed

text \<open>
  Claim C5. \<open>process_document\<close> never raises: for every input and every schedule of
  provider failures it returns normally. Every failure inside it leaves the index as
  it was and puts an \<open>ERROR\<close> entry with the exception into the log: an unsupported file
  type; a PDF that cannot be opened, or one of whose pages cannot be read; a DOCX file
  that cannot be read; a text file that cannot be read (in UTF-8, for a reason other than
  its encoding, or in Latin-1 after UTF-8 failed on the encoding); and an add to the
  vector store that fails, be it that the store cannot be obtained or that the add itself
  fails on every attempt. Whether the add fails is decided by the world before the call.
  When the add succeeds the index grows by exactly the chunks extracted from the file, and
  when no chunk is extracted the index is as it was: so the index afterwards is the index
  before, or the index before followed by the chunks of the document.
\<close>

theorem process_document_never_raises:
  "(let outcome = process_document st ev file_path document_id filename user_id w;
        w' = snd outcome;
        chunks = extracted_chunks st ev file_path document_id filename user_id w
    in fst outcome = Inr ()
       \<and> (collection w' = collection w
           \<or> (chunks \<noteq> [] \<and> collection w' = collection w @ entries_of (next_id w) chunks))
       \<and> (\<not> endswith file_path ''.pdf'' \<and> \<not> endswith file_path ''.docx''
            \<and> \<not> endswith file_path ''.txt'' \<longrightarrow>
            failure_logged (''Unsupported file type: '' @ file_path) w w')
       \<and> (endswith file_path ''.pdf''
            \<and> (pdf_reader ev file_path = Inl e
                \<or> pdf_reader ev file_path = Inr (map Inr texts @ Inl e # rest)) \<longrightarrow>
            failure_logged (''Error processing PDF '' @ file_path @ '': '' @ str_error e) w w')
       \<and> (\<not> endswith file_path ''.pdf'' \<and> endswith file_path ''.docx''
            \<and> docx_reader ev file_path = Inl e \<longrightarrow>
            failure_logged (''Error processing DOCX '' @ file_path @ '': '' @ str_error e) w w')
       \<and> (\<not> endswith file_path ''.pdf'' \<and> \<not> endswith file_path ''.docx''
            \<and> endswith file_path ''.txt''
            \<and> ((open_utf8 ev file_path = Inl e \<and> e \<noteq> UnicodeDecodeError)
                \<or> (open_utf8 ev file_path = Inl UnicodeDecodeError
                    \<and> open_latin1 ev file_path = Inl e)) \<longrightarrow>
            failure_logged (''Error processing TXT '' @ file_path @ '': '' @ str_error e) w w')
       \<and> (chunks \<noteq> [] \<and> fst (add_documents_to_vectorstore st chunks w) = Inl e \<longrightarrow>
            failure_logged (''Error adding document to vector store: '' @ str_error e) w w')
       \<and> (chunks \<noteq> [] \<and> fst (add_documents_to_vectorstore st chunks w) = Inr () \<longrightarrow>
            collection w' = collection w @ entries_of (next_id w) chunks
            \<and> last (log w') = (INFO, ''Document '' @ document_id @ '' processed successfully''))
       \<and> (chunks = [] \<longrightarrow> collection w' = collection w)
       \<and> (vector_store_global w \<and> take 3 (faults w) = [True, True, True] \<longrightarrow>
            collection w' = collection w))"
proof -
  let ?outcome = "process_document st ev file_path document_id filename user_id w"
  let ?chunks = "extracted_chunks st ev file_path document_id filename user_id w"
  let ?w0 = "logger INFO (''Processing document: '' @ filename @ '' (ID: '' @ document_id
                       @ '') for user: '' @ user_id) w"
  have l: "?w0 = w\<lparr>log := log ?w0\<rparr>" by (rule logger_only_log)
  note b = process_document_body_effect[OF l, of st ev file_path document_id filename user_id]
  have c1: "fst ?outcome = Inr ()"
    using b unfolding process_document_is_body by blast
  have c10: "vector_store_global w \<and> take 3 (faults w) = [True, True, True] \<longrightarrow>
            collection (snd ?outcome) = collection w"
    using b unfolding process_document_is_body by blast
  have c9: "?chunks = [] \<longrightarrow> collection (snd ?outcome) = collection w"
    using process_document_no_chunks[of st ev file_path document_id filename user_id w] by blast
  have supported: "endswith file_path ''.pdf'' \<or> endswith file_path ''.docx''
              \<or> endswith file_path ''.txt''" if "?chunks \<noteq> []"
    using that by (auto simp: extracted_chunks_def split: if_splits)
  have c7: "?chunks \<noteq> [] \<and> fst (add_documents_to_vectorstore st ?chunks w) = Inl e \<longrightarrow>
            failure_logged (''Error adding document to vector store: '' @ str_error e) w
              (snd ?outcome)"
  proof
    assume a: "?chunks \<noteq> [] \<and> fst (add_documents_to_vectorstore st ?chunks w) = Inl e"
    from process_document_supported[OF supported, of st ev document_id filename user_id w] a
    obtain w1 where o: "?outcome = add_chunks st document_id ?chunks w1"
      and f: "forget_log w1 = forget_log w" and p: "prefix (log w) (log w1)"
      by auto
    from add_chunks_outcome(1)[OF f p, of ?chunks st e document_id] a o
    show "failure_logged (''Error adding document to vector store: '' @ str_error e) w
              (snd ?outcome)"
      by simp
  qed
  have c8: "?chunks \<noteq> [] \<and> fst (add_documents_to_vectorstore st ?chunks w) = Inr () \<longrightarrow>
            collection (snd ?outcome) = collection w @ entries_of (next_id w) ?chunks
            \<and> last (log (snd ?outcome))
                = (INFO, ''Document '' @ document_id @ '' processed successfully'')"
  proof
    assume a: "?chunks \<noteq> [] \<and> fst (add_documents_to_vectorstore st ?chunks w) = Inr ()"
    from process_document_supported[OF supported, of st ev document_id filename user_id w] a
    obtain w1 where o: "?outcome = add_chunks st document_id ?chunks w1"
      and f: "forget_log w1 = forget_log w" and p: "prefix (log w) (log w1)"
      by auto
    from add_chunks_outcome(2)[OF f p, of ?chunks st document_id] a o
    show "collection (snd ?outcome) = collection w @ entries_of (next_id w) ?chunks
            \<and> last (log (snd ?outcome))
                = (INFO, ''Document '' @ document_id @ '' processed successfully'')"
      by simp
  qed
  have c2: "collection (snd ?outcome) = collection w
           \<or> (?chunks \<noteq> []
               \<and> collection (snd ?outcome) = collection w @ entries_of (next_id w) ?chunks)"
  proof (cases "?chunks = []")
    case True
    with c9 show ?thesis by simp
  next
    case False
    show ?thesis
    proof (cases "fst (add_documents_to_vectorstore st ?chunks w)")
      case (Inl e')
      from process_document_supported[OF supported[OF False], of st ev document_id filename user_id w]
      obtain w1 where o: "?outcome = add_chunks st document_id ?chunks w1"
        and f: "forget_log w1 = forget_log w" and p: "prefix (log w) (log w1)"
        by auto
      from add_chunks_outcome(1)[OF f p False Inl, of document_id] o
      show ?thesis by (simp add: failure_logged_def)
    next
      case (Inr u)
      with c8 False show ?thesis by simp
    qed
  qed
  have c3: "\<not> endswith file_path ''.pdf'' \<and> \<not> endswith file_path ''.docx''
            \<and> \<not> endswith file_path ''.txt'' \<longrightarrow>
            failure_logged (''Unsupported file type: '' @ file_path) w (snd ?outcome)"
    using process_document_unsupported_failure[of file_path w st ev document_id filename user_id]
    by blast
  have c4: "endswith file_path ''.pdf''
            \<and> (pdf_reader ev file_path = Inl e
                \<or> pdf_reader ev file_path = Inr (map Inr texts @ Inl e # rest)) \<longrightarrow>
            failure_logged (''Error processing PDF '' @ file_path @ '': '' @ str_error e) w
              (snd ?outcome)"
    using process_document_pdf_failure[of file_path ev e texts rest w st document_id filename user_id]
    by blast
  have c5: "\<not> endswith file_path ''.pdf'' \<and> endswith file_path ''.docx''
            \<and> docx_reader ev file_path = Inl e \<longrightarrow>
            failure_logged (''Error processing DOCX '' @ file_path @ '': '' @ str_error e) w
              (snd ?outcome)"
    using process_document_docx_failure[of file_path ev e w st document_id filename user_id]
    by blast
  have c6: "\<not> endswith file_path ''.pdf'' \<and> \<not> endswith file_path ''.docx''
            \<and> endswith file_path ''.txt''
            \<and> ((open_utf8 ev file_path = Inl e \<and> e \<noteq> UnicodeDecodeError)
                \<or> (open_utf8 ev file_path = Inl UnicodeDecodeError
                    \<and> open_latin1 ev file_path = Inl e)) \<longrightarrow>
            failure_logged (''Error processing TXT '' @ file_path @ '': '' @ str_error e) w
              (snd ?outcome)"
    using process_document_txt_failure[of file_path ev e w st document_id filename user_id]
    by blast
  show ?thesis
    unfolding Let_def
    by (intro conjI) (fact c1, fact c2, fact c3, fact c4, fact c5, fact c6, fact c7, fact c8,
        fact c9, fact c10)
qed

lemma example_ingestion:
  "\<not> endswith ''x.csv'' ''.pdf'' \<and> \<not> endswith ''x.csv'' ''.docx'' \<and> \<not> endswith ''x.csv'' ''.txt''"
  "endswith ''zzz.pdf'' ''.pdf'' \<and> pdf_reader example_env ''zzz.pdf'' = Inl FileError"
  "endswith ''a.pdf'' ''.pdf''
   \<and> pdf_reader (example_env\<lparr>pdf_reader := (\<lambda>p. Inr [Inr ''Alpha.'', Inl FileError])\<rparr>) ''a.pdf''
       = Inr [Inr ''Alpha.'', Inl FileError]"
  "\<not> endswith ''zzz.docx'' ''.pdf'' \<and> endswith ''zzz.docx'' ''.docx''
   \<and> docx_reader example_env ''zzz.docx'' = Inl FileError"
  "\<not> endswith ''zzz.txt'' ''.pdf'' \<and> \<not> endswith ''zzz.txt'' ''.docx''
   \<and> endswith ''zzz.txt'' ''.txt'' \<and> open_utf8 example_env ''zzz.txt'' = Inl FileError"
  "\<not> endswith ''c.txt'' ''.pdf'' \<and> \<not> endswith ''c.txt'' ''.docx'' \<and> endswith ''c.txt'' ''.txt''
   \<and> open_utf8 (example_env\<lparr>open_utf8 := (\<lambda>p. Inl UnicodeDecodeError)\<rparr>) ''c.txt''
       = Inl UnicodeDecodeError
   \<and> open_latin1 (example_env\<lparr>open_utf8 := (\<lambda>p. Inl UnicodeDecodeError)\<rparr>) ''c.txt''
       = Inl FileError"
  by code_simp+

lemma example_ingestion_add:
  "extracted_chunks example_settings example_env ''a.pdf'' ''d9'' ''a.pdf'' ''carol''
     (example_world\<lparr>vector_store_global := False, faults := replicate 9 True\<rparr>) \<noteq> []"
  "fst (add_documents_to_vectorstore example_settings
         (extracted_chunks example_settings example_env ''a.pdf'' ''d9'' ''a.pdf'' ''carol''
            (example_world\<lparr>vector_store_global := False, faults := replicate 9 True\<rparr>))
         (example_world\<lparr>vector_store_global := False, faults := replicate 9 True\<rparr>))
     = Inl RetryError"
  "extracted_chunks example_settings example_env ''a.pdf'' ''d9'' ''a.pdf'' ''carol''
     example_world \<noteq> []"
  "fst (add_documents_to_vectorstore example_settings
         (extracted_chunks example_settings example_env ''a.pdf'' ''d9'' ''a.pdf'' ''carol''
            example_world) example_world) = Inr ()"
  "map (\<lambda>c. (chunk_text c, map_of (chunk_metadata c) ''document_id''))
     (extracted_chunks example_settings example_env ''a.pdf'' ''d9'' ''a.pdf'' ''carol''
        example_world) = [(''Alpha.'', Some ''d9''), (''Gamma.'', Some ''d9'')]"
  "vector_store_global (example_world\<lparr>faults := [True, True, True]\<rparr>)
   \<and> take 3 (faults (example_world\<lparr>faults := [True, True, True]\<rparr>)) = [True, True, True]"
  "collection (example_world\<lparr>faults := [True, True, True]\<rparr>) = collection example_world"
  "collection (example_world\<lparr>vector_store_global := False, faults := replicate 9 True\<rparr>)
     = collection example_world"
  "length (collection example_world) = 2"
  by code_simp+

theorem process_document_never_raises_witness:
  "fst (process_document example_settings example_env ''x.csv'' ''d9'' ''x.csv'' ''carol''
          example_world) = Inr ()
   \<and> failure_logged ''Unsupported file type: x.csv'' example_world
       (snd (process_document example_settings example_env ''x.csv'' ''d9'' ''x.csv'' ''carol''
          example_world))
   \<and> failure_logged (''Error processing PDF zzz.pdf: '' @ str_error FileError) example_world
       (snd (process_document example_settings example_env ''zzz.pdf'' ''d9'' ''zzz.pdf''
          ''carol'' example_world))
   \<and> failure_logged (''Error processing PDF a.pdf: '' @ str_error FileError) example_world
       (snd (process_document example_settings
          (example_env\<lparr>pdf_reader := (\<lambda>p. Inr [Inr ''Alpha.'', Inl FileError])\<rparr>)
          ''a.pdf'' ''d9'' ''a.pdf'' ''carol'' example_world))
   \<and> failure_logged (''Error processing DOCX zzz.docx: '' @ str_error FileError) example_world
       (snd (process_document example_settings example_env ''zzz.docx'' ''d9'' ''zzz.docx''
          ''carol'' example_world))
   \<and> failure_logged (''Error processing TXT zzz.txt: '' @ str_error FileError) example_world
       (snd (process_document example_settings example_env ''zzz.txt'' ''d9'' ''zzz.txt''
          ''carol'' example_world))
   \<and> failure_logged (''Error processing TXT c.txt: '' @ str_error FileError) example_world
       (snd (process_document example_settings
          (example_env\<lparr>open_utf8 := (\<lambda>p. Inl UnicodeDecodeError)\<rparr>)
          ''c.txt'' ''d9'' ''c.txt'' ''carol'' example_world))
   \<and> failure_logged (''Error adding document to vector store: '' @ str_error RetryError)
       (example_world\<lparr>vector_store_global := False, faults := replicate 9 True\<rparr>)
       (snd (process_document example_settings example_env ''a.pdf'' ''d9'' ''a.pdf'' ''carol''
          (example_world\<lparr>vector_store_global := False, faults := replicate 9 True\<rparr>)))
   \<and> collection (snd (process_document example_settings example_env ''a.pdf'' ''d9'' ''a.pdf''
          ''carol'' (example_world\<lparr>faults := [True, True, True]\<rparr>))) = collection example_world
   \<and> collection (snd (process_document example_settings example_env ''a.pdf'' ''d9'' ''a.pdf''
          ''carol'' example_world))
       = collection example_world
         @ entries_of (next_id example_world)
             (extracted_chunks example_settings example_env ''a.pdf'' ''d9'' ''a.pdf'' ''carol''
                example_world)
   \<and> last (log (snd (process_document example_settings example_env ''a.pdf'' ''d9'' ''a.pdf''
          ''carol'' example_world))) = (INFO, ''Document d9 processed successfully'')
   \<and> map (\<lambda>c. (chunk_text c, map_of (chunk_metadata c) ''document_id''))
       (extracted_chunks example_settings example_env ''a.pdf'' ''d9'' ''a.pdf'' ''carol''
          example_world) = [(''Alpha.'', Some ''d9''), (''Gamma.'', Some ''d9'')]"
  using
    process_document_never_raises[where st = example_settings and ev = example_env
      and file_path = "''x.csv''" and document_id = "''d9''" and filename = "''x.csv''"
      and user_id = "''carol''" and w = example_world and e = FileError and texts = "[]"
      and rest = "[]", unfolded Let_def]
    process_document_never_raises[where st = example_settings and ev = example_env
      and file_path = "''zzz.pdf''" and document_id = "''d9''" and filename = "''zzz.pdf''"
      and user_id = "''carol''" and w = example_world and e = FileError and texts = "[]"
      and rest = "[]", unfolded Let_def]
    process_document_never_raises[where st = example_settings
      and ev = "example_env\<lparr>pdf_reader := (\<lambda>p. Inr [Inr ''Alpha.'', Inl FileError])\<rparr>"
      and file_path = "''a.pdf''" and document_id = "''d9''" and filename = "''a.pdf''"
      and user_id = "''carol''" and w = example_world and e = FileError
      and texts = "[''Alpha.'']" and rest = "[]", unfolded Let_def]
    process_document_never_raises[where st = example_settings and ev = example_env
      and file_path = "''zzz.docx''" and document_id = "''d9''" and filename = "''zzz.docx''"
      and user_id = "''carol''" and w = example_world and e = FileError and texts = "[]"
      and rest = "[]", unfolded Let_def]
    process_document_never_raises[where st = example_settings and ev = example_env
      and file_path = "''zzz.txt''" and document_id = "''d9''" and filename = "''zzz.txt''"
      and user_id = "''carol''" and w = example_world and e = FileError and texts = "[]"
      and rest = "[]", unfolded Let_def]
    process_document_never_raises[where st = example_settings
      and ev = "example_env\<lparr>open_utf8 := (\<lambda>p. Inl UnicodeDecodeError)\<rparr>"
      and file_path = "''c.txt''" and document_id = "''d9''" and filename = "''c.txt''"
      and user_id = "''carol''" and w = example_world and e = FileError and texts = "[]"
      and rest = "[]", unfolded Let_def]
    process_document_never_raises[where st = example_settings and ev = example_env
      and file_path = "''a.pdf''" and document_id = "''d9''" and filename = "''a.pdf''"
      and user_id = "''carol''"
      and w = "example_world\<lparr>vector_store_global := False, faults := replicate 9 True\<rparr>"
      and e = RetryError and texts = "[]" and rest = "[]", unfolded Let_def]
    process_document_never_raises[where st = example_settings and ev = example_env
      and file_path = "''a.pdf''" and document_id = "''d9''" and filename = "''a.pdf''"
      and user_id = "''carol''" and w = "example_world\<lparr>faults := [True, True, True]\<rparr>"
      and e = FileError and texts = "[]" and rest = "[]", unfolded Let_def]
    process_document_never_raises[where st = example_settings and ev = example_env
      and file_path = "''a.pdf''" and document_id = "''d9''" and filename = "''a.pdf''"
      and user_id = "''carol''" and w = example_world and e = FileError and texts = "[]"
      and rest = "[]", unfolded Let_def]
    example_ingestion example_ingestion_add
  by simp

subsection \<open>Length of the chunks\<close>

lemma length_strip: "length (strip s) \<le> length s"
proof -
  have "length (rstrip t) \<le> length t" for t
    using length_dropWhile_le[of isspace "rev t"] by (simp add: rstrip_def)
  from this[of "lstrip s"] length_dropWhile_le[of isspace s] show ?thesis
    by (simp add: strip_def lstrip_def)
qed

lemma length_concat_total: "length (concat current_doc) = total current_doc"
  by (simp add: total_def length_concat)

lemma total_append [simp]: "total (xs @ ys) = total xs + total ys"
  by (simp add: total_def)

lemma total_Cons [simp]: "total (x # xs) = length x + total xs"
  by (simp add: total_def)

lemma total_Nil [simp]: "total [] = 0"
  by (simp add: total_def)

lemma join_docs_length:
  "c \<in> set (join_docs current_doc) \<Longrightarrow> length c \<le> total current_doc"
  using length_strip[of "concat current_doc"]
  by (auto simp: join_docs_def Let_def length_concat_total split: if_splits)

lemma pop_overlap_fits:
  "total (pop_overlap chunk_size chunk_overlap len current_doc) + len \<le> chunk_size
   \<or> total (pop_overlap chunk_size chunk_overlap len current_doc) = 0"
  by (induction current_doc) auto


lemma merge_splits_length:
  assumes "\<forall>d \<in> set splits. length d \<le> chunk_size" and "total current_doc \<le> chunk_size"
    and "c \<in> set (merge_splits chunk_size chunk_overlap splits current_doc)"
  shows "length c \<le> chunk_size"
  using assms
proof (induction splits arbitrary: current_doc)
  case Nil
  then show ?case using join_docs_length[of c current_doc] by simp
next
  case (Cons d splits)
  have d: "length d \<le> chunk_size" using Cons.prems(1) by simp
  have rest: "\<forall>d \<in> set splits. length d \<le> chunk_size" using Cons.prems(1) by simp
  show ?case
  proof (cases "total current_doc + length d > chunk_size \<and> current_doc \<noteq> []")
    case True
    let ?kept = "pop_overlap chunk_size chunk_overlap (length d) current_doc"
    from True Cons.prems(3) have
      "c \<in> set (join_docs current_doc)
       \<or> c \<in> set (merge_splits chunk_size chunk_overlap splits (?kept @ [d]))"
      by auto
    then show ?thesis
    proof
      assume "c \<in> set (join_docs current_doc)"
      from join_docs_length[OF this] Cons.prems(2) show ?thesis by simp
    next
      assume m: "c \<in> set (merge_splits chunk_size chunk_overlap splits (?kept @ [d]))"
      have "total (?kept @ [d]) \<le> chunk_size"
        using pop_overlap_fits[of chunk_size chunk_overlap "length d" current_doc] d by auto
      from Cons.IH[OF rest this m] show ?thesis .
    qed
  next
    case False
    then have m: "c \<in> set (merge_splits chunk_size chunk_overlap splits (current_doc @ [d]))"
      using Cons.prems(3) by auto
    have "total (current_doc @ [d]) \<le> chunk_size"
      using False d by auto
    from Cons.IH[OF rest this m] show ?thesis .
  qed
qed

lemma merge_good_length:
  assumes "\<forall>d \<in> set good_splits. length d \<le> chunk_size"
    and "c \<in> set (merge_good chunk_size chunk_overlap good_splits)"
  shows "length c \<le> chunk_size"
  using assms merge_splits_length[of good_splits chunk_size "[]" c chunk_overlap]
  by (auto simp: merge_good_def split: if_splits)

lemma split_pieces_length:
  assumes "\<forall>s \<in> set splits. \<forall>c \<in> set (again s). length c \<le> chunk_size"
    and "\<forall>d \<in> set good_splits. length d \<le> chunk_size"
    and "c \<in> set (split_pieces chunk_size chunk_overlap again splits good_splits)"
  shows "length c \<le> chunk_size"
  using assms
proof (induction splits arbitrary: good_splits)
  case Nil
  then show ?case using merge_good_length[of good_splits chunk_size c chunk_overlap] by simp
next
  case (Cons s splits)
  have again: "\<forall>s \<in> set splits. \<forall>c \<in> set (again s). length c \<le> chunk_size"
    using Cons.prems(1) by simp
  show ?case
  proof (cases "length s < chunk_size")
    case True
    then have m: "c \<in> set (split_pieces chunk_size chunk_overlap again splits (good_splits @ [s]))"
      using Cons.prems(3) by simp
    have "\<forall>d \<in> set (good_splits @ [s]). length d \<le> chunk_size"
      using Cons.prems(2) True by auto
    from Cons.IH[OF again this m] show ?thesis .
  next
    case False
    then have "c \<in> set (merge_good chunk_size chunk_overlap good_splits)
               \<or> c \<in> set (again s)
               \<or> c \<in> set (split_pieces chunk_size chunk_overlap again splits [])"
      using Cons.prems(3) by auto
    then show ?thesis
    proof (elim disjE)
      assume "c \<in> set (merge_good chunk_size chunk_overlap good_splits)"
      from merge_good_length[OF Cons.prems(2) this] show ?thesis .
    next
      assume "c \<in> set (again s)"
      with Cons.prems(1) show ?thesis by simp
    next
      assume m: "c \<in> set (split_pieces chunk_size chunk_overlap again splits [])"
      have "\<forall>d \<in> set ([]::string list). length d \<le> chunk_size" by simp
      from Cons.IH[OF again this m] show ?thesis .
    qed
  qed
qed

lemma split_text_with_length:
  assumes "0 < chunk_size" and "[] \<in> set seps"
    and "c \<in> set (split_text_with chunk_size chunk_overlap seps t)"
  shows "length c \<le> chunk_size"
  using assms(2,3)
proof (induction seps arbitrary: t c)
  case Nil
  then show ?case by simp
next
  case (Cons sep new_separators)
  have single: "\<forall>s \<in> set (split_with_separator [] t). \<forall>c \<in> set [s]. length c \<le> chunk_size"
    using assms(1) by (auto simp: split_with_separator_def)
  have none: "\<forall>d \<in> set ([]::string list). length d \<le> chunk_size" by simp
  show ?case
  proof (cases "sep = []")
    case True
    with Cons.prems(2) have
      "c \<in> set (split_pieces chunk_size chunk_overlap (\<lambda>s. [s]) (split_with_separator [] t) [])"
      by simp
    from split_pieces_length[OF single none this] show ?thesis .
  next
    case False
    with Cons.prems(1) have e: "[] \<in> set new_separators" by auto
    then have ne: "new_separators \<noteq> []" by auto
    have again: "\<forall>s \<in> set (split_with_separator sep t).
                   \<forall>c \<in> set (split_text_with chunk_size chunk_overlap new_separators s).
                     length c \<le> chunk_size"
      using Cons.IH[OF e] by blast
    show ?thesis
    proof (cases "contains sep t")
      case True
      with False Cons.prems(2) have
        "c \<in> set (split_pieces chunk_size chunk_overlap
                     (split_text_with chunk_size chunk_overlap new_separators)
                     (split_with_separator sep t) [])"
        by simp
      from split_pieces_length[OF again none this] show ?thesis .
    next
      case nc: False
      with False ne Cons.prems(2) have
        "c \<in> set (split_text_with chunk_size chunk_overlap new_separators t)"
        by simp
      from Cons.IH[OF e this] show ?thesis .
    qed
  qed
qed

lemma split_text_length:
  assumes "0 < chunk_size" and "c \<in> set (split_text chunk_size chunk_overlap t)"
  shows "length c \<le> chunk_size"
  using split_text_with_length[OF assms(1) _ assms(2)[unfolded split_text_def]]
  by (simp add: separators_def)

lemma create_chunks_with_metadata_texts:
  assumes "c \<in> set (create_chunks_with_metadata st ev text_by_page document_id filename user_id)"
  shows "\<exists>page_num t. (page_num, t) \<in> set text_by_page
           \<and> chunk_text c \<in> set (text_splitter ev (CHUNK_SIZE st) (CHUNK_OVERLAP st) t)"
proof -
  have t: "chunk_text (chunk_with_metadata ev p document_id filename user_id x) = x" for p x
    by (simp add: chunk_with_metadata_def Let_def)
  from create_chunks_with_metadata_member[OF assms] obtain page_num t0 x where
    "(page_num, t0) \<in> set text_by_page"
    "x \<in> set (text_splitter ev (CHUNK_SIZE st) (CHUNK_OVERLAP st) t0)"
    "c = chunk_with_metadata ev page_num document_id filename user_id x"
    by blast
  then show ?thesis using t by auto
qed

text \<open>
  Claim C7. With the recursive splitter, for every text every chunk the chunker produces
  is at most \<open>CHUNK_SIZE\<close> characters long, and \<open>CHUNK_SIZE\<close> is 1000 in the default
  settings. The bound rests on the fallback through the separators, down to single
  characters.
\<close>

theorem chunks_within_chunk_size:
  assumes "text_splitter ev = split_text" and "0 < CHUNK_SIZE st"
  shows "(\<forall>c \<in> set (create_chunks_with_metadata st ev text_by_page document_id filename user_id).
            length (chunk_text c) \<le> CHUNK_SIZE st)
         \<and> (\<forall>c \<in> set (split_text (CHUNK_SIZE st) (CHUNK_OVERLAP st) t). length c \<le> CHUNK_SIZE st)
         \<and> CHUNK_SIZE (default_settings key) = 1000"
proof (intro conjI ballI)
  fix c
  assume "c \<in> set (create_chunks_with_metadata st ev text_by_page document_id filename user_id)"
  from create_chunks_with_metadata_texts[OF this] assms(1)
  obtain t0 where "chunk_text c \<in> set (split_text (CHUNK_SIZE st) (CHUNK_OVERLAP st) t0)"
    by auto
  from split_text_length[OF assms(2) this] show "length (chunk_text c) \<le> CHUNK_SIZE st" .
next
  fix c
  assume "c \<in> set (split_text (CHUNK_SIZE st) (CHUNK_OVERLAP st) t)"
  from split_text_length[OF assms(2) this] show "length c \<le> CHUNK_SIZE st" .
next
  show "CHUNK_SIZE (default_settings key) = 1000" by (simp add: default_settings_def)
qed

lemma example_splitter: "text_splitter example_env = split_text"
  by (simp add: example_env_def)

lemma example_split:
  "0 < CHUNK_SIZE (example_settings\<lparr>CHUNK_SIZE := 10, CHUNK_OVERLAP := 3\<rparr>)"
  "map chunk_text
     (create_chunks_with_metadata (example_settings\<lparr>CHUNK_SIZE := 10, CHUNK_OVERLAP := 3\<rparr>)
        example_env [(None, ''aaa bbb ccc abcdefghijklmnopqrstuvwxyz'')] ''d7'' ''c.txt'' ''carol'')
   = [''aaa bbb'', ''ccc'', ''abcdefghi'', ''ghijklmnop'', ''nopqrstuvw'', ''uvwxyz'']"
  by code_simp+

theorem chunks_within_chunk_size_witness:
  "text_splitter example_env = split_text
   \<and> 0 < CHUNK_SIZE (example_settings\<lparr>CHUNK_SIZE := 10, CHUNK_OVERLAP := 3\<rparr>)
   \<and> map chunk_text
       (create_chunks_with_metadata (example_settings\<lparr>CHUNK_SIZE := 10, CHUNK_OVERLAP := 3\<rparr>)
          example_env [(None, ''aaa bbb ccc abcdefghijklmnopqrstuvwxyz'')] ''d7'' ''c.txt'' ''carol'')
     = [''aaa bbb'', ''ccc'', ''abcdefghi'', ''ghijklmnop'', ''nopqrstuvw'', ''uvwxyz'']
   \<and> list_all (\<lambda>c. length (chunk_text c) \<le> 10)
       (create_chunks_with_metadata (example_settings\<lparr>CHUNK_SIZE := 10, CHUNK_OVERLAP := 3\<rparr>)
          example_env [(None, ''aaa bbb ccc abcdefghijklmnopqrstuvwxyz'')] ''d7'' ''c.txt'' ''carol'')"
proof -
  let ?st = "example_settings\<lparr>CHUNK_SIZE := 10, CHUNK_OVERLAP := 3\<rparr>"
  have "\<forall>c \<in> set (create_chunks_with_metadata ?st example_env
                     [(None, ''aaa bbb ccc abcdefghijklmnopqrstuvwxyz'')] ''d7'' ''c.txt'' ''carol'').
          length (chunk_text c) \<le> CHUNK_SIZE ?st"
    using chunks_within_chunk_size[OF example_splitter example_split(1)] by blast
  then have "list_all (\<lambda>c. length (chunk_text c) \<le> 10)
       (create_chunks_with_metadata ?st example_env
          [(None, ''aaa bbb ccc abcdefghijklmnopqrstuvwxyz'')] ''d7'' ''c.txt'' ''carol'')"
    by (simp add: list_all_iff)
  then show ?thesis using example_splitter example_split by simp
qed

subsection \<open>Windows, overlap and reconstruction\<close>


lemma chunks_of_simps [simp]:
  "chunks_of [] = []"
  "chunks_of ((n, w) # windows) = join_docs [w] @ chunks_of windows"
  "chunks_of (xs @ ys) = chunks_of xs @ chunks_of ys"
  by (simp_all add: chunks_of_def)

lemma unsplit_simps [simp]:
  "unsplit [] = []"
  "unsplit ((n, w) # windows) = drop n w @ unsplit windows"
  "unsplit (xs @ ys) = unsplit xs @ unsplit ys"
  by (simp_all add: unsplit_def)

lemma starts_fresh_simps [simp]:
  "starts_fresh []"
  "starts_fresh ((n, w) # windows) = (n = 0)"
  by (simp_all add: starts_fresh_def)














lemma sound_windowsI:
  assumes "chunks = chunks_of windows" and "unsplit windows = t"
    and "starts_fresh windows" and "chained chunk_overlap [] windows"
  shows "sound_windows chunk_overlap t chunks windows"
  using assms by (simp add: sound_windows_def)









lemma single_window_sound: "sound_windows chunk_overlap s (join_docs [s]) [(0, s)]"
  by (rule sound_windowsI) simp_all






end
